theory Spec2Isabelle
  imports Main "HOL-Library.Word"
begin

section \<open>Values shared by client and server\<close>

text \<open>
  A JSON value as \<^verbatim>\<open>encoding/json\<close> sees it once a text has passed its scanner.
  Numbers are kept as integers (every id and error code of this package is one);
  an object keeps its members in the order of the text, duplicates included.
\<close>

datatype json =
    JNull
  | JBool bool
  | JNumber int
  | JString string
  | JArray "json list"
  | JObject "(string \<times> json) list"

text \<open>Go's \<^verbatim>\<open>int\<close> is a 64-bit two's complement integer; \<open>sint\<close> reads its value.\<close>

type_synonym go_int = "64 word"

type_synonym uint64 = "64 word"

section \<open>error.go\<close>

record Error =
  code :: go_int
  message :: string
  data :: json



definition Error_Error :: "Error \<Rightarrow> string" where
  "Error_Error e = message e"

section \<open>Errors, panics and outcomes\<close>

text \<open>
  A Go \<^verbatim>\<open>error\<close> value: a pointer to an \<^verbatim>\<open>Error\<close> of this package, which implements
  the interface by its method \<^verbatim>\<open>Error()\<close>, or any other error, identified with the
  string its \<^verbatim>\<open>Error()\<close> method returns. \<open>errString\<close> is the call \<^verbatim>\<open>err.Error()\<close>.
\<close>

datatype go_error = GoError string | RPCError Error

fun errString :: "go_error \<Rightarrow> string" where
  "errString (GoError s) = s"
| "errString (RPCError e) = Error_Error e"

text \<open>The run-time panics this package can raise.\<close>

datatype panic = IndexOutOfRange | SliceBoundsOutOfRange

text \<open>A call either panics, returns a non-nil error, or returns its results.\<close>

datatype 'r outcome = Panics panic | Fails go_error | Returns 'r

section \<open>helpers.go: the middleware chain composer\<close>

text \<open>
  \<^verbatim>\<open>type Endpoint func(ctx context.Context, request interface{}) (response interface{}, err error)\<close>

  \<^verbatim>\<open>type EndpointMiddlewareFunc = func(Endpoint) Endpoint\<close>

  An endpoint is a Go closure: besides returning the pair \<open>(response, err)\<close> it may act
  on the rest of the program. That rest is the explicit world \<open>'w\<close>, passed in and
  returned; \<open>'c\<close> is the context and \<open>'a\<close> the type of application values.
\<close>

type_synonym ('c, 'a, 'w) Endpoint = "'c \<Rightarrow> 'a \<Rightarrow> 'w \<Rightarrow> ('a \<times> go_error option) \<times> 'w"

type_synonym ('c, 'a, 'w) EndpointMiddlewareFunc =
  "('c, 'a, 'w) Endpoint \<Rightarrow> ('c, 'a, 'w) Endpoint"

text \<open>
  The loop \<^verbatim>\<open>for i := len(others) - 1; i >= 0; i-- { next = others[i](next) }\<close>.
  The counter of the model is the Go index plus one, so that it stops at 0 where the
  Go index becomes negative.
\<close>

fun middlewareChain_loop ::
  "('c, 'a, 'w) EndpointMiddlewareFunc list \<Rightarrow> nat \<Rightarrow> ('c, 'a, 'w) Endpoint \<Rightarrow> ('c, 'a, 'w) Endpoint"
where
  "middlewareChain_loop others 0 next = next"
| "middlewareChain_loop others (Suc i) next = middlewareChain_loop others i ((others ! i) next)"

definition middlewareChain ::
  "('c, 'a, 'w) EndpointMiddlewareFunc list \<Rightarrow> ('c, 'a, 'w) EndpointMiddlewareFunc"
where
  "middlewareChain middlewares = (\<lambda>next.
     if length middlewares = 0 then next
     else let outer = middlewares ! 0;
              others = drop 1 middlewares
          in outer (middlewareChain_loop others (length others) next))"

text \<open>
  Observers for the ordering contract: a middleware that records an event, calls the
  wrapped endpoint and records a second event on the way out, and an endpoint that
  records its own call. The world is the list of events recorded so far.
\<close>

datatype event = Enter string | Exit string | Call string

definition observing :: "string \<Rightarrow> ('c, 'a, event list) EndpointMiddlewareFunc" where
  "observing name = (\<lambda>next ctx request w.
     case next ctx request (w @ [Enter name]) of (r, w') \<Rightarrow> (r, w' @ [Exit name]))"

definition observed :: "string \<Rightarrow> ('c \<Rightarrow> 'a \<Rightarrow> 'a \<times> go_error option) \<Rightarrow> ('c, 'a, event list) Endpoint" where
  "observed name f = (\<lambda>ctx request w. (f ctx request, w @ [Call name]))"

section \<open>encoding/json as this package uses it\<close>

text \<open>
  The decoder matches an object's member to the struct field whose tag equals the
  member's name under Unicode case folding; the tags of this package are lower-case
  ASCII. Members are decoded in the order
  of the text, so of two members with one name the later one stands. A member no field
  matches is skipped. The first type mismatch is the error the decoder returns; what it
  has filled in by then is not read by this package. The texts of the errors are
  abbreviated.
\<close>

definition toLower :: "char \<Rightarrow> char" where
  "toLower c =
     (case map_of (zip ''ABCDEFGHIJKLMNOPQRSTUVWXYZ'' ''abcdefghijklmnopqrstuvwxyz'') c of
        Some l \<Rightarrow> l
      | None \<Rightarrow> c)"

text \<open>
  Two characters outside ASCII fold onto ASCII letters: U+017F (bytes C5 BF in UTF-8)
  onto \<open>s\<close> and U+212A (bytes E2 84 AA) onto \<open>k\<close>. Every other character outside
  ASCII stays outside, and matches no tag of this package.
\<close>

fun foldName :: "string \<Rightarrow> string" where
  "foldName (c1 # c2 # c3 # cs) =
     (if c1 = CHR 0xE2 \<and> c2 = CHR 0x84 \<and> c3 = CHR 0xAA then CHR ''k'' # foldName cs
      else if c1 = CHR 0xC5 \<and> c2 = CHR 0xBF then CHR ''s'' # foldName (c3 # cs)
      else toLower c1 # foldName (c2 # c3 # cs))"
| "foldName [c1, c2] =
     (if c1 = CHR 0xC5 \<and> c2 = CHR 0xBF then [CHR ''s''] else [toLower c1, toLower c2])"
| "foldName [c1] = [toLower c1]"
| "foldName [] = []"

definition names_field :: "string \<Rightarrow> string \<Rightarrow> bool" where
  "names_field key tag = (foldName key = tag)"

definition UnmarshalTypeError :: "string \<Rightarrow> go_error" where
  "UnmarshalTypeError ty = GoError (''json: cannot unmarshal into Go value of type '' @ ty)"

text \<open>A Go \<^verbatim>\<open>string\<close> field: a JSON string sets it, \<^verbatim>\<open>null\<close> leaves it as it is.\<close>

fun unmarshal_string :: "string \<Rightarrow> json \<Rightarrow> go_error + string" where
  "unmarshal_string old (JString s) = Inr s"
| "unmarshal_string old JNull = Inr old"
| "unmarshal_string old _ = Inl (UnmarshalTypeError ''string'')"

text \<open>
  A byte string as \<^verbatim>\<open>json.Unmarshal\<close> sees it: \<open>Inl err\<close> when it is not the text of
  one JSON value, \<open>Inr j\<close> when it is the text of \<open>j\<close>.
\<close>

type_synonym data = "go_error + json"

section \<open>client.go, client part: types\<close>

text \<open>
  \<^verbatim>\<open>ClientBeforeFunc func(context.Context, *http.Request) context.Context\<close> and
  \<^verbatim>\<open>ClientAfterFunc func(context.Context, *http.Response, json.RawMessage) context.Context\<close>.
  The request and the response are objects of the world \<open>'w\<close>.
\<close>

type_synonym ('c, 'w) ClientBeforeFunc = "'c \<Rightarrow> 'w \<Rightarrow> 'c \<times> 'w"
type_synonym ('c, 'w) ClientAfterFunc = "'c \<Rightarrow> json option \<Rightarrow> 'w \<Rightarrow> 'c \<times> 'w"

text \<open>
  What the client reads of an \<^verbatim>\<open>*http.Response\<close>. \<open>Body\<close> is the outcome of
  \<^verbatim>\<open>io.Copy(buf, resp.Body)\<close>: an error, or the number of bytes written together with
  the bytes that \<^verbatim>\<open>wb[:written]\<close> then holds.
\<close>

record http_Response =
  StatusCode :: int
  Status :: string
  Body :: "go_error + nat \<times> data"

text \<open>
  \<^verbatim>\<open>httpClient.Do(req)\<close>: the context of the request, the body sent and the world give
  an error or a response.
\<close>

type_synonym ('c, 'w) http_Client = "'c \<Rightarrow> json \<Rightarrow> 'w \<Rightarrow> (go_error + http_Response) \<times> 'w"

record ('c, 'w) clientOptions =
  opts_ctx :: "'c option"
  before :: "('c, 'w) ClientBeforeFunc list"
  after :: "('c, 'w) ClientAfterFunc list"
  httpClient :: "('c, 'w) http_Client"

text \<open>
  The \<^verbatim>\<open>Requester\<close> interface with the optional interfaces a request may implement:
  \<open>Context\<close> is \<open>Some\<close> when the request implements \<^verbatim>\<open>requesterWithContext\<close> and
  returns a non-nil context; \<open>Before\<close> and \<open>After\<close> are empty when it does not
  implement \<^verbatim>\<open>RequesterWithBefore\<close> or \<^verbatim>\<open>RequesterWithAfter\<close>. Parameters have type
  \<open>'p\<close> (\<open>None\<close> is the nil interface), results type \<open>'v\<close>.
\<close>

record ('c, 'w, 'p, 'v) Requester =
  MakeRequest :: "string \<times> 'p option"
  MakeResult :: "json option \<Rightarrow> go_error + 'v"
  Context :: "'c option"
  Before :: "('c, 'w) ClientBeforeFunc list"
  After :: "('c, 'w) ClientAfterFunc list"

record 'p clientReq =
  ID :: uint64
  Version :: string
  Method :: string
  Params :: "'p option"

record clientError =
  Code :: go_int
  Message :: string
  Data :: json

record clientResp =
  ID :: uint64
  Version :: string
  Error :: "clientError option"
  Result :: "json option"

text \<open>
  An element of \<^verbatim>\<open>BatchResult.results\<close>, of type \<^verbatim>\<open>any\<close>: nil, a pointer to an
  \<^verbatim>\<open>Error\<close>, or what \<^verbatim>\<open>MakeResult\<close> returned.
\<close>

datatype 'v any = AnyNil | AnyError Error | AnyValue 'v

record 'v BatchResult =
  results :: "'v any list"

definition BatchResult_At :: "'v BatchResult \<Rightarrow> int \<Rightarrow> panic + 'v any" where
  "BatchResult_At r i =
     (if 0 \<le> i \<and> i < int (length (results r)) then Inr (results r ! nat i)
      else Inl IndexOutOfRange)"

definition BatchResult_Len :: "'v BatchResult \<Rightarrow> int" where
  "BatchResult_Len r = int (length (results r))"

definition BatchResult_Error :: "'v BatchResult \<Rightarrow> int \<Rightarrow> panic + Error option" where
  "BatchResult_Error r i =
     (if 0 \<le> i \<and> i < int (length (results r)) then
        (case results r ! nat i of AnyError err \<Rightarrow> Inr (Some err) | _ \<Rightarrow> Inr None)
      else Inl IndexOutOfRange)"

record ('c, 'w) Client =
  target :: string
  incrementID :: uint64
  opts :: "('c, 'w) clientOptions"

section \<open>client.go, client part: encoding and decoding\<close>

text \<open>
  \<^verbatim>\<open>json.NewEncoder(reqBuf).Encode(rpcRequests)\<close>. \<open>json_Marshal\<close> is \<^verbatim>\<open>json.Marshal\<close>
  on the application's parameter values; the nil interface is written as \<^verbatim>\<open>null\<close>. The
  slice comes from \<^verbatim>\<open>make\<close> and is never nil, so it is written as an array.
\<close>

definition encode_clientReq :: "('p \<Rightarrow> go_error + json) \<Rightarrow> 'p clientReq \<Rightarrow> go_error + json" where
  "encode_clientReq json_Marshal r =
     (case (case clientReq.Params r of None \<Rightarrow> Inr JNull | Some p \<Rightarrow> json_Marshal p) of
        Inl err \<Rightarrow> Inl err
      | Inr params \<Rightarrow>
          Inr (JObject [(''id'', JNumber (uint (clientReq.ID r))),
                        (''jsonrpc'', JString (clientReq.Version r)),
                        (''method'', JString (clientReq.Method r)),
                        (''params'', params)]))"

fun encode_elements :: "('x \<Rightarrow> go_error + json) \<Rightarrow> 'x list \<Rightarrow> go_error + json list" where
  "encode_elements enc [] = Inr []"
| "encode_elements enc (x # xs) =
     (case enc x of
        Inl err \<Rightarrow> Inl err
      | Inr j \<Rightarrow>
          (case encode_elements enc xs of
             Inl err \<Rightarrow> Inl err
           | Inr js \<Rightarrow> Inr (j # js)))"

definition encode_clientReqs :: "('p \<Rightarrow> go_error + json) \<Rightarrow> 'p clientReq list \<Rightarrow> go_error + json" where
  "encode_clientReqs json_Marshal rs =
     (case encode_elements (encode_clientReq json_Marshal) rs of
        Inl err \<Rightarrow> Inl err
      | Inr js \<Rightarrow> Inr (JArray js))"

text \<open>
  A \<^verbatim>\<open>uint64\<close> or \<^verbatim>\<open>int\<close> field: a JSON number in the range of the type sets it,
  \<^verbatim>\<open>null\<close> leaves it as it is.
\<close>

fun unmarshal_uint64 :: "uint64 \<Rightarrow> json \<Rightarrow> go_error + uint64" where
  "unmarshal_uint64 old (JNumber n) =
     (if 0 \<le> n \<and> n < 2 ^ 64 then Inr (word_of_int n) else Inl (UnmarshalTypeError ''uint64''))"
| "unmarshal_uint64 old JNull = Inr old"
| "unmarshal_uint64 old _ = Inl (UnmarshalTypeError ''uint64'')"

fun unmarshal_int :: "go_int \<Rightarrow> json \<Rightarrow> go_error + go_int" where
  "unmarshal_int old (JNumber n) =
     (if - (2 ^ 63) \<le> n \<and> n < 2 ^ 63 then Inr (word_of_int n) else Inl (UnmarshalTypeError ''int''))"
| "unmarshal_int old JNull = Inr old"
| "unmarshal_int old _ = Inl (UnmarshalTypeError ''int'')"

fun unmarshal_clientError_members ::
  "clientError \<Rightarrow> (string \<times> json) list \<Rightarrow> go_error + clientError"
where
  "unmarshal_clientError_members e [] = Inr e"
| "unmarshal_clientError_members e ((key, v) # ms) =
     (if names_field key ''code'' then
        (case unmarshal_int (clientError.Code e) v of
           Inl err \<Rightarrow> Inl err
         | Inr c \<Rightarrow> unmarshal_clientError_members (e\<lparr>clientError.Code := c\<rparr>) ms)
      else if names_field key ''message'' then
        (case unmarshal_string (clientError.Message e) v of
           Inl err \<Rightarrow> Inl err
         | Inr m \<Rightarrow> unmarshal_clientError_members (e\<lparr>clientError.Message := m\<rparr>) ms)
      else if names_field key ''data'' then
        unmarshal_clientError_members (e\<lparr>clientError.Data := v\<rparr>) ms
      else unmarshal_clientError_members e ms)"

definition zero_clientError :: clientError where
  "zero_clientError = \<lparr>clientError.Code = 0, Message = [], Data = JNull\<rparr>"

text \<open>
  The field \<^verbatim>\<open>Error *clientError\<close>: \<^verbatim>\<open>null\<close> sets the pointer to nil; an object is
  decoded into the struct the pointer points to, a new zero struct when it is nil.
\<close>

fun unmarshal_clientError_ptr :: "clientError option \<Rightarrow> json \<Rightarrow> go_error + clientError option" where
  "unmarshal_clientError_ptr old JNull = Inr None"
| "unmarshal_clientError_ptr old (JObject ms) =
     (case unmarshal_clientError_members (case old of None \<Rightarrow> zero_clientError | Some e \<Rightarrow> e) ms of
        Inl err \<Rightarrow> Inl err
      | Inr e \<Rightarrow> Inr (Some e))"
| "unmarshal_clientError_ptr old _ = Inl (UnmarshalTypeError ''jsonrpc.clientError'')"

fun unmarshal_clientResp_members ::
  "clientResp \<Rightarrow> (string \<times> json) list \<Rightarrow> go_error + clientResp"
where
  "unmarshal_clientResp_members r [] = Inr r"
| "unmarshal_clientResp_members r ((key, v) # ms) =
     (if names_field key ''id'' then
        (case unmarshal_uint64 (clientResp.ID r) v of
           Inl err \<Rightarrow> Inl err
         | Inr n \<Rightarrow> unmarshal_clientResp_members (r\<lparr>clientResp.ID := n\<rparr>) ms)
      else if names_field key ''jsonrpc'' then
        (case unmarshal_string (clientResp.Version r) v of
           Inl err \<Rightarrow> Inl err
         | Inr s \<Rightarrow> unmarshal_clientResp_members (r\<lparr>clientResp.Version := s\<rparr>) ms)
      else if names_field key ''error'' then
        (case unmarshal_clientError_ptr (clientResp.Error r) v of
           Inl err \<Rightarrow> Inl err
         | Inr e \<Rightarrow> unmarshal_clientResp_members (r\<lparr>clientResp.Error := e\<rparr>) ms)
      else if names_field key ''result'' then
        unmarshal_clientResp_members (r\<lparr>clientResp.Result := Some v\<rparr>) ms
      else unmarshal_clientResp_members r ms)"

definition zero_clientResp :: clientResp where
  "zero_clientResp = \<lparr>clientResp.ID = 0, Version = [], Error = None, Result = None\<rparr>"

fun unmarshal_clientResp :: "json \<Rightarrow> go_error + clientResp" where
  "unmarshal_clientResp (JObject ms) = unmarshal_clientResp_members zero_clientResp ms"
| "unmarshal_clientResp JNull = Inr zero_clientResp"
| "unmarshal_clientResp _ = Inl (UnmarshalTypeError ''jsonrpc.clientResp'')"

fun unmarshal_clientResp_elements :: "json list \<Rightarrow> go_error + clientResp list" where
  "unmarshal_clientResp_elements [] = Inr []"
| "unmarshal_clientResp_elements (j # js) =
     (case unmarshal_clientResp j of
        Inl err \<Rightarrow> Inl err
      | Inr r \<Rightarrow>
          (case unmarshal_clientResp_elements js of
             Inl err \<Rightarrow> Inl err
           | Inr rs \<Rightarrow> Inr (r # rs)))"

text \<open>
  \<^verbatim>\<open>json.Unmarshal(data, &responses)\<close> with \<^verbatim>\<open>responses\<close> a slice of zero values: the
  slice is cut to length 0 and gets one element for each element of the array, so its
  length is that of the array; \<^verbatim>\<open>null\<close> makes it nil.
\<close>

fun unmarshal_clientResps :: "data \<Rightarrow> go_error + clientResp list" where
  "unmarshal_clientResps (Inl err) = Inl err"
| "unmarshal_clientResps (Inr (JArray js)) = unmarshal_clientResp_elements js"
| "unmarshal_clientResps (Inr JNull) = Inr []"
| "unmarshal_clientResps (Inr _) = Inl (UnmarshalTypeError ''[]jsonrpc.clientResp'')"

section \<open>client.go, client part: submitting a batch\<close>

text \<open>\<^verbatim>\<open>atomic.AddUint64(&c.incrementID, 1)\<close> returns the new value of the counter.\<close>

definition autoIncrementID :: "('c, 'w) Client \<Rightarrow> uint64 \<times> ('c, 'w) Client" where
  "autoIncrementID c = (incrementID c + 1, c\<lparr>incrementID := incrementID c + 1\<rparr>)"

fun run_client_before :: "('c, 'w) ClientBeforeFunc list \<Rightarrow> 'c \<Rightarrow> 'w \<Rightarrow> 'c \<times> 'w" where
  "run_client_before [] rctx w = (rctx, w)"
| "run_client_before (f # fs) rctx w =
     (case f rctx w of (rctx', w') \<Rightarrow> run_client_before fs rctx' w')"

text \<open>The hooks called after a response; the context each returns is dropped.\<close>

fun run_client_after :: "('c, 'w) ClientAfterFunc list \<Rightarrow> 'c \<Rightarrow> json option \<Rightarrow> 'w \<Rightarrow> 'w" where
  "run_client_after [] rctx result w = w"
| "run_client_after (f # fs) rctx result w = run_client_after fs rctx result (snd (f rctx result w))"

definition zero_clientReq :: "'p clientReq" where
  "zero_clientReq = \<lparr>clientReq.ID = 0, Version = [], Method = [], Params = None\<rparr>"

text \<open>
  The loop \<^verbatim>\<open>for i, request := range requests\<close> of \<^verbatim>\<open>doRequests\<close>. \<open>rctx\<close> is the
  context of the outgoing request, \<open>i\<close> the index of the next request.
\<close>

fun doRequests_loop ::
  "('c, 'w) Client \<Rightarrow> 'c \<Rightarrow> nat \<Rightarrow> ('c, 'w, 'p, 'v) Requester list \<Rightarrow> (uint64 \<rightharpoonup> nat)
     \<Rightarrow> 'p clientReq list \<Rightarrow> 'w
     \<Rightarrow> ('c, 'w) Client \<times> 'c \<times> (uint64 \<rightharpoonup> nat) \<times> 'p clientReq list \<times> 'w"
where
  "doRequests_loop c rctx i [] idsIndex rpcRequests w = (c, rctx, idsIndex, rpcRequests, w)"
| "doRequests_loop c rctx i (request # rest) idsIndex rpcRequests w =
     (case run_client_before (Before request)
             (case Context request of Some v \<Rightarrow> v | None \<Rightarrow> rctx) w of
        (rctx', w') \<Rightarrow>
          (case MakeRequest request of
             (methodName, params) \<Rightarrow>
               (case autoIncrementID c of
                  (id', c') \<Rightarrow>
                    (let r = \<lparr>clientReq.ID = id', Version = ''2.0'', Method = methodName,
                              Params = params\<rparr>
                     in doRequests_loop c' rctx' (Suc i) rest (idsIndex(clientReq.ID r \<mapsto> i))
                          (rpcRequests[i := r]) w'))))"

text \<open>
  \<^verbatim>\<open>doRequests\<close> from the reset of the counter to the end of the loop, for a target
  that \<^verbatim>\<open>http.NewRequest\<close> accepts: the client, the context of the outgoing request,
  the correlation table, the wire requests and the world.
\<close>

definition doRequests_build ::
  "('c, 'w) Client \<Rightarrow> 'c \<Rightarrow> ('c, 'w, 'p, 'v) Requester list \<Rightarrow> 'w
     \<Rightarrow> ('c, 'w) Client \<times> 'c \<times> (uint64 \<rightharpoonup> nat) \<times> 'p clientReq list \<times> 'w"
where
  "doRequests_build c ctx requests w =
     (case run_client_before (before (opts c)) ctx w of
        (rctx, w') \<Rightarrow>
          doRequests_loop (c\<lparr>incrementID := 0\<rparr>) rctx 0 requests Map.empty
            (replicate (length requests) zero_clientReq) w')"

text \<open>
  \<^verbatim>\<open>doRequests\<close>. \<open>http_NewRequest\<close> is the error of \<^verbatim>\<open>http.NewRequest("POST", target, nil)\<close>,
  if any. The capacity of the working buffer \<^verbatim>\<open>wb\<close> is 10485760, and \<^verbatim>\<open>wb[:written]\<close>
  panics beyond it. Besides the data, the table and the response, the model returns the
  context of the request that was sent, which \<^verbatim>\<open>resp.Request.Context()\<close> reads later.
\<close>

definition doRequests ::
  "(string \<Rightarrow> go_error option) \<Rightarrow> ('p \<Rightarrow> go_error + json) \<Rightarrow> ('c, 'w) Client \<Rightarrow> 'c
     \<Rightarrow> ('c, 'w, 'p, 'v) Requester list \<Rightarrow> 'w
     \<Rightarrow> ('c, 'w) Client \<times> (data \<times> (uint64 \<rightharpoonup> nat) \<times> http_Response \<times> 'c) outcome \<times> 'w"
where
  "doRequests http_NewRequest json_Marshal c ctx requests w =
     (case http_NewRequest (target c) of
        Some err \<Rightarrow> (c\<lparr>incrementID := 0\<rparr>, Fails err, w)
      | None \<Rightarrow>
          (case doRequests_build c ctx requests w of
             (c1, rctx, idsIndex, rpcRequests, w1) \<Rightarrow>
               (case encode_clientReqs json_Marshal rpcRequests of
                  Inl err \<Rightarrow> (c1, Fails err, w1)
                | Inr reqBuf \<Rightarrow>
                    (case httpClient (opts c1) rctx reqBuf w1 of
                       (Inl err, w2) \<Rightarrow> (c1, Fails err, w2)
                     | (Inr resp, w2) \<Rightarrow>
                         (if StatusCode resp \<noteq> 200 then (c1, Fails (GoError (Status resp)), w2)
                          else
                            (case Body resp of
                               Inl err \<Rightarrow> (c1, Fails err, w2)
                             | Inr (written, data') \<Rightarrow>
                                 (if written > 10485760 then (c1, Panics SliceBoundsOutOfRange, w2)
                                  else (c1, Returns (data', idsIndex, resp, rctx), w2))))))))"

definition RawExecuteWithContext ::
  "(string \<Rightarrow> go_error option) \<Rightarrow> ('p \<Rightarrow> go_error + json) \<Rightarrow> ('c, 'w) Client \<Rightarrow> 'c
     \<Rightarrow> ('c, 'w, 'p, 'v) Requester list \<Rightarrow> 'w
     \<Rightarrow> ('c, 'w) Client \<times> (data \<times> (uint64 \<rightharpoonup> nat) \<times> http_Response \<times> 'c) outcome \<times> 'w"
where
  "RawExecuteWithContext http_NewRequest json_Marshal c ctx requests w =
     doRequests http_NewRequest json_Marshal c ctx requests w"

text \<open>
  The loop \<^verbatim>\<open>for _, response := range responses\<close> of \<^verbatim>\<open>ExecuteWithContext\<close>. The index
  expression \<^verbatim>\<open>idsIndex[response.ID]\<close> is 0 for an id that is not a key of the map.
  \<^verbatim>\<open>batchResult.results[i]\<close> and \<^verbatim>\<open>requests[i]\<close> panic when \<open>i\<close> is out of range.
\<close>

fun ExecuteWithContext_loop ::
  "('c, 'w) Client \<Rightarrow> ('c, 'w, 'p, 'v) Requester list \<Rightarrow> (uint64 \<rightharpoonup> nat) \<Rightarrow> 'c
     \<Rightarrow> clientResp list \<Rightarrow> 'v BatchResult \<Rightarrow> 'w \<Rightarrow> 'v BatchResult outcome \<times> 'w"
where
  "ExecuteWithContext_loop c requests idsIndex rctx [] batchResult w = (Returns batchResult, w)"
| "ExecuteWithContext_loop c requests idsIndex rctx (response # rest) batchResult w =
     (let i = (case idsIndex (clientResp.ID response) of None \<Rightarrow> 0 | Some i \<Rightarrow> i)
      in case clientResp.Error response of
           Some e \<Rightarrow>
             (if i < length (results batchResult) then
                ExecuteWithContext_loop c requests idsIndex rctx rest
                  (batchResult\<lparr>results := (results batchResult)
                     [i := AnyError \<lparr>code = clientError.Code e, message = clientError.Message e,
                                      data = clientError.Data e\<rparr>]\<rparr>) w
              else (Panics IndexOutOfRange, w))
         | None \<Rightarrow>
             (let w1 = run_client_after (after (opts c)) rctx (clientResp.Result response) w
              in if i < length requests then
                   (let request = requests ! i;
                        w2 = run_client_after (After request) rctx (clientResp.Result response) w1
                    in case MakeResult request (clientResp.Result response) of
                         Inl err \<Rightarrow> (Fails err, w2)
                       | Inr result \<Rightarrow>
                           (if i < length (results batchResult) then
                              ExecuteWithContext_loop c requests idsIndex rctx rest
                                (batchResult\<lparr>results := (results batchResult)[i := AnyValue result]\<rparr>) w2
                            else (Panics IndexOutOfRange, w2)))
                 else (Panics IndexOutOfRange, w1)))"

definition ExecuteWithContext ::
  "(string \<Rightarrow> go_error option) \<Rightarrow> ('p \<Rightarrow> go_error + json) \<Rightarrow> ('c, 'w) Client \<Rightarrow> 'c
     \<Rightarrow> ('c, 'w, 'p, 'v) Requester list \<Rightarrow> 'w
     \<Rightarrow> ('c, 'w) Client \<times> 'v BatchResult outcome \<times> 'w"
where
  "ExecuteWithContext http_NewRequest json_Marshal c ctx requests w =
     (case doRequests http_NewRequest json_Marshal c ctx requests w of
        (c1, Panics p, w1) \<Rightarrow> (c1, Panics p, w1)
      | (c1, Fails err, w1) \<Rightarrow> (c1, Fails err, w1)
      | (c1, Returns (data', idsIndex, resp, rctx), w1) \<Rightarrow>
          (case unmarshal_clientResps data' of
             Inl err \<Rightarrow> (c1, Fails err, w1)
           | Inr responses \<Rightarrow>
               (case ExecuteWithContext_loop c1 requests idsIndex rctx responses
                       \<lparr>results = replicate (length requests) AnyNil\<rparr> w1 of
                  (out, w2) \<Rightarrow> (c1, out, w2))))"

text \<open>\<^verbatim>\<open>Execute\<close> and \<^verbatim>\<open>RawExecute\<close> pass \<^verbatim>\<open>context.TODO()\<close>, here \<open>todo\<close>.\<close>

definition Execute ::
  "(string \<Rightarrow> go_error option) \<Rightarrow> ('p \<Rightarrow> go_error + json) \<Rightarrow> 'c \<Rightarrow> ('c, 'w) Client
     \<Rightarrow> ('c, 'w, 'p, 'v) Requester list \<Rightarrow> 'w
     \<Rightarrow> ('c, 'w) Client \<times> 'v BatchResult outcome \<times> 'w"
where
  "Execute http_NewRequest json_Marshal todo c requests w =
     ExecuteWithContext http_NewRequest json_Marshal c todo requests w"

definition RawExecute ::
  "(string \<Rightarrow> go_error option) \<Rightarrow> ('p \<Rightarrow> go_error + json) \<Rightarrow> 'c \<Rightarrow> ('c, 'w) Client
     \<Rightarrow> ('c, 'w, 'p, 'v) Requester list \<Rightarrow> 'w
     \<Rightarrow> ('c, 'w) Client \<times> (data \<times> (uint64 \<rightharpoonup> nat) \<times> http_Response \<times> 'c) outcome \<times> 'w"
where
  "RawExecute http_NewRequest json_Marshal todo c requests w =
     RawExecuteWithContext http_NewRequest json_Marshal c todo requests w"

section \<open>Go slices\<close>

text \<open>
  The server keeps its hooks and middleware in slices, copies slice headers from the
  server's options into each method's options and appends to the copy. A slice header
  is a pointer to a backing array, a length and a capacity; \<^verbatim>\<open>append\<close> writes into the
  backing array when the capacity allows it and allocates a new array otherwise. The
  backing arrays live in an explicit heap, one per element type. Of each array the heap
  keeps the cells written so far. The nil slice has length and capacity 0.
\<close>

record slice =
  base :: nat
  len :: nat
  cap :: nat

record 'x heap =
  arrays :: "nat \<Rightarrow> 'x list"
  fresh :: nat

definition nil_slice :: slice where
  "nil_slice = \<lparr>base = 0, len = 0, cap = 0\<rparr>"

definition empty_heap :: "'x heap" where
  "empty_heap = \<lparr>arrays = (\<lambda>_. []), fresh = 1\<rparr>"

text \<open>\<^verbatim>\<open>range s\<close>, \<^verbatim>\<open>s[i]\<close>: the elements a slice header gives access to.\<close>

definition elems :: "'x heap \<Rightarrow> slice \<Rightarrow> 'x list" where
  "elems h s = take (len s) (arrays h (base s))"

text \<open>
  \<^verbatim>\<open>append(s, xs...)\<close>. The language leaves the capacity of a newly allocated array to
  the implementation; \<open>grow old_cap new_len\<close> is that choice.
\<close>

definition append_slice ::
  "(nat \<Rightarrow> nat \<Rightarrow> nat) \<Rightarrow> 'x heap \<Rightarrow> slice \<Rightarrow> 'x list \<Rightarrow> 'x heap \<times> slice"
where
  "append_slice grow h s xs =
     (let n = len s + length xs;
          old = arrays h (base s)
      in if n \<le> cap s then
           (h\<lparr>arrays := (arrays h)(base s := take (len s) old @ xs @ drop n old)\<rparr>,
            s\<lparr>len := n\<rparr>)
         else
           (h\<lparr>arrays := (arrays h)(fresh h := take (len s) old @ xs), fresh := Suc (fresh h)\<rparr>,
            \<lparr>base = fresh h, len = n, cap = grow (cap s) n\<rparr>))"

text \<open>
  The choice of the Go runtime (\<^verbatim>\<open>runtime.nextslicecap\<close>) for slices of fewer than 256
  elements: the new length when it exceeds twice the old capacity, twice the old
  capacity otherwise. (The runtime then rounds up to an allocation size class; for
  function values the capacities 1, 2 and 4 are size classes themselves.)
\<close>

definition nextslicecap :: "nat \<Rightarrow> nat \<Rightarrow> nat" where
  "nextslicecap oldCap newLen = (if newLen > oldCap + oldCap then newLen else oldCap + oldCap)"

section \<open>client.go, server part: types\<close>

definition jsonRPCParseError :: go_int where "jsonRPCParseError = - 32700"
definition jsonRPCInvalidRequestError :: go_int where "jsonRPCInvalidRequestError = - 32600"
definition jsonRPCMethodNotFoundError :: go_int where "jsonRPCMethodNotFoundError = - 32601"
definition jsonRPCInvalidParamsError :: go_int where "jsonRPCInvalidParamsError = - 32602"
definition jsonRPCInternalError :: go_int where "jsonRPCInternalError = - 32603"

definition Version_const :: string where
  "Version_const = ''2.0''"

text \<open>
  \<^verbatim>\<open>BeforeFunc func(ctx, r) (newCtx, err)\<close>, \<^verbatim>\<open>AfterFunc func(ctx, rw) newCtx\<close>,
  \<^verbatim>\<open>ReqDecode func(ctx, r, params) (result, err)\<close>. The request \<^verbatim>\<open>r\<close> and the writer
  \<^verbatim>\<open>rw\<close> are mutable objects of the world \<open>'w\<close>. A \<^verbatim>\<open>json.RawMessage\<close> is
  \<open>None\<close> when it is nil and \<open>Some j\<close> when it holds the text of the JSON value \<open>j\<close>.
\<close>

type_synonym ('c, 'w) BeforeFunc = "'c \<Rightarrow> 'w \<Rightarrow> ('c \<times> go_error option) \<times> 'w"
type_synonym ('c, 'w) AfterFunc = "'c \<Rightarrow> 'w \<Rightarrow> 'c \<times> 'w"
type_synonym ('c, 'a, 'w) ReqDecode = "'c \<Rightarrow> json option \<Rightarrow> 'w \<Rightarrow> ('a \<times> go_error option) \<times> 'w"

text \<open>
  A value of type \<^verbatim>\<open>any\<close> that came out of the JSON decoder (a request's id, an
  error's data) is the JSON value it was decoded from; the nil interface is \<open>JNull\<close>.
  Go holds such a number as a float64 and such an object as a map, so an integer beyond
  \<open>2 ^ 53\<close> or an object with a repeated member is not written back as it was read;
  the model writes it back as read.
\<close>

record jsonRPCError =
  Code :: go_int
  Message :: string
  Data :: json

record jsonRPCRequest =
  ID :: json
  Version :: string
  Method :: string
  Params :: "json option"

record jsonRPCResponse =
  ID :: json
  Version :: string
  Error :: "jsonRPCError option"
  Result :: "json option"

record jsonRPCRequestData =
  requests :: "jsonRPCRequest list"
  isBatch :: bool

text \<open>
  \<^verbatim>\<open>Options\<close> holds three slice headers; \<open>memory\<close> holds the backing arrays they
  point into.
\<close>

record Options =
  before :: slice
  after :: slice
  middleware :: slice

record ('c, 'a, 'w) memory =
  before_arrays :: "('c, 'w) BeforeFunc heap"
  after_arrays :: "('c, 'w) AfterFunc heap"
  middleware_arrays :: "('c, 'a, 'w) EndpointMiddlewareFunc heap"

definition empty_memory :: "('c, 'a, 'w) memory" where
  "empty_memory =
     \<lparr>before_arrays = empty_heap, after_arrays = empty_heap, middleware_arrays = empty_heap\<rparr>"

text \<open>
  \<^verbatim>\<open>type Option func(*Options)\<close>: the three option constructors of the package, each
  appending its arguments to one slice of the options it is applied to.
\<close>

datatype ('c, 'a, 'w) Option =
    Before "('c, 'w) BeforeFunc list"
  | After "('c, 'w) AfterFunc list"
  | EndpointMiddleware "('c, 'a, 'w) EndpointMiddlewareFunc list"

fun apply_Option ::
  "(nat \<Rightarrow> nat \<Rightarrow> nat) \<Rightarrow> ('c, 'a, 'w) memory \<times> Options \<Rightarrow> ('c, 'a, 'w) Option
     \<Rightarrow> ('c, 'a, 'w) memory \<times> Options"
where
  "apply_Option grow (mem, o') (Before fs) =
     (case append_slice grow (before_arrays mem) (before o') fs of
        (h, s) \<Rightarrow> (mem\<lparr>before_arrays := h\<rparr>, o'\<lparr>before := s\<rparr>))"
| "apply_Option grow (mem, o') (After fs) =
     (case append_slice grow (after_arrays mem) (after o') fs of
        (h, s) \<Rightarrow> (mem\<lparr>after_arrays := h\<rparr>, o'\<lparr>after := s\<rparr>))"
| "apply_Option grow (mem, o') (EndpointMiddleware ms) =
     (case append_slice grow (middleware_arrays mem) (middleware o') ms of
        (h, s) \<Rightarrow> (mem\<lparr>middleware_arrays := h\<rparr>, o'\<lparr>middleware := s\<rparr>))"

record ('c, 'a, 'w) ServerMethod =
  endpoint :: "('c, 'a, 'w) Endpoint"
  reqDecode :: "('c, 'a, 'w) ReqDecode"
  method_opts :: Options

record ('c, 'a, 'w) Server =
  methods :: "string \<rightharpoonup> ('c, 'a, 'w) ServerMethod"
  opts :: Options

section \<open>client.go, server part: construction and registration\<close>

definition NewServer ::
  "(nat \<Rightarrow> nat \<Rightarrow> nat) \<Rightarrow> ('c, 'a, 'w) memory \<Rightarrow> ('c, 'a, 'w) Option list
     \<Rightarrow> ('c, 'a, 'w) memory \<times> ('c, 'a, 'w) Server"
where
  "NewServer grow mem options =
     (case foldl (apply_Option grow)
             (mem, \<lparr>before = nil_slice, after = nil_slice, middleware = nil_slice\<rparr>) options of
        (mem', o') \<Rightarrow> (mem', \<lparr>methods = Map.empty, opts = o'\<rparr>))"

text \<open>
  \<^verbatim>\<open>Register\<close> copies the three slice headers of the server's options (not the arrays
  behind them), applies the method's options to the copy and stores the method under
  its name. It returns the new memory, the server and the method.
\<close>

definition Register ::
  "(nat \<Rightarrow> nat \<Rightarrow> nat) \<Rightarrow> ('c, 'a, 'w) memory \<Rightarrow> ('c, 'a, 'w) Server \<Rightarrow> string
     \<Rightarrow> ('c, 'a, 'w) Endpoint \<Rightarrow> ('c, 'a, 'w) ReqDecode \<Rightarrow> ('c, 'a, 'w) Option list
     \<Rightarrow> ('c, 'a, 'w) memory \<times> ('c, 'a, 'w) Server \<times> ('c, 'a, 'w) ServerMethod"
where
  "Register grow mem s method ep dec options =
     (case foldl (apply_Option grow)
             (mem, \<lparr>before = before (opts s), after = after (opts s),
                    middleware = middleware (opts s)\<rparr>) options of
        (mem', o') \<Rightarrow>
          (let sm = \<lparr>endpoint = ep, reqDecode = dec, method_opts = o'\<rparr>
           in (mem', s\<lparr>methods := (methods s)(method \<mapsto> sm)\<rparr>, sm)))"

section \<open>client.go, server part: dispatch\<close>

definition makeErrorResponse :: "json \<Rightarrow> go_int \<Rightarrow> string \<Rightarrow> jsonRPCResponse" where
  "makeErrorResponse id' code' message' =
     \<lparr>jsonRPCResponse.ID = id', Version = Version_const,
      Error = Some \<lparr>Code = code', Message = message', Data = JNull\<rparr>, Result = None\<rparr>"

text \<open>The loop over \<^verbatim>\<open>method.opts.before\<close>: the first hook that fails ends the call.\<close>

fun run_before ::
  "('c, 'w) BeforeFunc list \<Rightarrow> 'c \<Rightarrow> 'w \<Rightarrow> (go_error + 'c) \<times> 'w"
where
  "run_before [] ctx w = (Inr ctx, w)"
| "run_before (b # bs) ctx w =
     (case b ctx w of
        ((ctx', Some err), w') \<Rightarrow> (Inl err, w')
      | ((ctx', None), w') \<Rightarrow> run_before bs ctx' w')"

fun run_after :: "('c, 'w) AfterFunc list \<Rightarrow> 'c \<Rightarrow> 'w \<Rightarrow> 'c \<times> 'w" where
  "run_after [] ctx w = (ctx, w)"
| "run_after (a # as) ctx w = (case a ctx w of (ctx', w') \<Rightarrow> run_after as ctx' w')"

text \<open>
  \<^verbatim>\<open>handleMethod\<close> returns \<open>(nil, err)\<close> or \<open>(response, nil)\<close>: \<open>Inl err\<close> or
  \<open>Inr response\<close>. Its receiver is not used by its body.
\<close>

definition handleMethod ::
  "('c, 'a, 'w) memory \<Rightarrow> ('c, 'a, 'w) ServerMethod \<Rightarrow> 'c \<Rightarrow> json option \<Rightarrow> 'w
     \<Rightarrow> (go_error + 'a) \<times> 'w"
where
  "handleMethod mem method ctx params w =
     (case run_before (elems (before_arrays mem) (before (method_opts method))) ctx w of
        (Inl err, w1) \<Rightarrow> (Inl err, w1)
      | (Inr ctx1, w1) \<Rightarrow>
          (case reqDecode method ctx1 params w1 of
             ((request, Some err), w2) \<Rightarrow> (Inl err, w2)
           | ((request, None), w2) \<Rightarrow>
               (case middlewareChain
                       (elems (middleware_arrays mem) (middleware (method_opts method)))
                       (endpoint method) ctx1 request w2 of
                  ((response, Some err), w3) \<Rightarrow> (Inl err, w3)
                | ((response, None), w3) \<Rightarrow>
                    (case run_after (elems (after_arrays mem) (after (method_opts method))) ctx1 w3 of
                       (ctx2, w4) \<Rightarrow> (Inr response, w4)))))"

section \<open>client.go, server part: decoding and encoding\<close>

fun unmarshal_jsonRPCRequest_members ::
  "jsonRPCRequest \<Rightarrow> (string \<times> json) list \<Rightarrow> go_error + jsonRPCRequest"
where
  "unmarshal_jsonRPCRequest_members req [] = Inr req"
| "unmarshal_jsonRPCRequest_members req ((key, v) # ms) =
     (if names_field key ''id'' then
        unmarshal_jsonRPCRequest_members (req\<lparr>jsonRPCRequest.ID := v\<rparr>) ms
      else if names_field key ''jsonrpc'' then
        (case unmarshal_string (jsonRPCRequest.Version req) v of
           Inl err \<Rightarrow> Inl err
         | Inr s \<Rightarrow> unmarshal_jsonRPCRequest_members (req\<lparr>jsonRPCRequest.Version := s\<rparr>) ms)
      else if names_field key ''method'' then
        (case unmarshal_string (Method req) v of
           Inl err \<Rightarrow> Inl err
         | Inr s \<Rightarrow> unmarshal_jsonRPCRequest_members (req\<lparr>Method := s\<rparr>) ms)
      else if names_field key ''params'' then
        unmarshal_jsonRPCRequest_members (req\<lparr>Params := Some v\<rparr>) ms
      else unmarshal_jsonRPCRequest_members req ms)"

definition zero_jsonRPCRequest :: jsonRPCRequest where
  "zero_jsonRPCRequest = \<lparr>jsonRPCRequest.ID = JNull, Version = [], Method = [], Params = None\<rparr>"

text \<open>\<^verbatim>\<open>json.Unmarshal(b, &req)\<close> with \<^verbatim>\<open>var req jsonRPCRequest\<close>.\<close>

fun unmarshal_jsonRPCRequest :: "json \<Rightarrow> go_error + jsonRPCRequest" where
  "unmarshal_jsonRPCRequest (JObject ms) = unmarshal_jsonRPCRequest_members zero_jsonRPCRequest ms"
| "unmarshal_jsonRPCRequest JNull = Inr zero_jsonRPCRequest"
| "unmarshal_jsonRPCRequest _ = Inl (UnmarshalTypeError ''jsonrpc.jsonRPCRequest'')"

fun unmarshal_jsonRPCRequest_elements :: "json list \<Rightarrow> go_error + jsonRPCRequest list" where
  "unmarshal_jsonRPCRequest_elements [] = Inr []"
| "unmarshal_jsonRPCRequest_elements (j # js) =
     (case unmarshal_jsonRPCRequest j of
        Inl err \<Rightarrow> Inl err
      | Inr req \<Rightarrow>
          (case unmarshal_jsonRPCRequest_elements js of
             Inl err \<Rightarrow> Inl err
           | Inr reqs \<Rightarrow> Inr (req # reqs)))"

text \<open>\<^verbatim>\<open>json.Unmarshal(b, &r.requests)\<close> with \<^verbatim>\<open>r.requests\<close> nil.\<close>

fun unmarshal_jsonRPCRequests :: "json \<Rightarrow> go_error + jsonRPCRequest list" where
  "unmarshal_jsonRPCRequests (JArray js) = unmarshal_jsonRPCRequest_elements js"
| "unmarshal_jsonRPCRequests JNull = Inr []"
| "unmarshal_jsonRPCRequests _ = Inl (UnmarshalTypeError ''[]jsonrpc.jsonRPCRequest'')"

text \<open>
  \<^verbatim>\<open>bytes.HasPrefix(b, []byte("["))\<close>, for the text \<^verbatim>\<open>b\<close> that the decoder hands to
  \<^verbatim>\<open>UnmarshalJSON\<close>: the text of one JSON value, starting at its first character. It
  starts with a bracket exactly when the value is an array.
\<close>

fun HasPrefix_bracket :: "json \<Rightarrow> bool" where
  "HasPrefix_bracket (JArray _) = True"
| "HasPrefix_bracket _ = False"

text \<open>
  \<^verbatim>\<open>func (r *jsonRPCRequestData) UnmarshalJSON(b []byte) error\<close>: the error and the
  receiver after the call. \<^verbatim>\<open>isBatch\<close> is set before the array is decoded and stays set
  when the decoding fails.
\<close>

definition UnmarshalJSON ::
  "jsonRPCRequestData \<Rightarrow> json \<Rightarrow> go_error option \<times> jsonRPCRequestData"
where
  "UnmarshalJSON r b =
     (if HasPrefix_bracket b then
        (let r1 = r\<lparr>isBatch := True\<rparr>
         in case unmarshal_jsonRPCRequests b of
              Inl err \<Rightarrow> (Some err, r1)
            | Inr reqs \<Rightarrow> (None, r1\<lparr>requests := reqs\<rparr>))
      else
        (case unmarshal_jsonRPCRequest b of
           Inl err \<Rightarrow> (Some err, r)
         | Inr req \<Rightarrow> (None, r\<lparr>requests := requests r @ [req]\<rparr>)))"

text \<open>
  \<^verbatim>\<open>json.NewDecoder(r.Body).Decode(&requestData)\<close>. The decoder first reads one complete
  JSON value from the body. A body is \<open>Inl err\<close> when that fails (the body is empty,
  cannot be read, or is not the text of a JSON value) and \<open>Inr j\<close> when \<open>j\<close> is the
  first value in it; only then is \<^verbatim>\<open>UnmarshalJSON\<close> called.
\<close>

type_synonym body = "go_error + json"

fun Decode :: "body \<Rightarrow> jsonRPCRequestData \<Rightarrow> go_error option \<times> jsonRPCRequestData" where
  "Decode (Inl err) r = (Some err, r)"
| "Decode (Inr j) r = UnmarshalJSON r j"

text \<open>
  The encoder writes a struct's fields in their order, leaves out an \<^verbatim>\<open>omitempty\<close>
  field that is nil or empty, writes a nil slice as \<^verbatim>\<open>null\<close> and any other slice as an
  array.
\<close>

definition encode_jsonRPCError :: "jsonRPCError \<Rightarrow> json" where
  "encode_jsonRPCError e =
     JObject ([(''code'', JNumber (sint (Code e))), (''message'', JString (Message e))]
              @ (if Data e = JNull then [] else [(''data'', Data e)]))"

definition encode_jsonRPCResponse :: "jsonRPCResponse \<Rightarrow> json" where
  "encode_jsonRPCResponse r =
     JObject ([(''id'', jsonRPCResponse.ID r), (''jsonrpc'', JString (jsonRPCResponse.Version r))]
              @ (case Error r of None \<Rightarrow> [] | Some e \<Rightarrow> [(''error'', encode_jsonRPCError e)])
              @ (case Result r of None \<Rightarrow> [] | Some raw \<Rightarrow> [(''result'', raw)]))"

definition encode_jsonRPCResponses :: "jsonRPCResponse list \<Rightarrow> json" where
  "encode_jsonRPCResponses rs = (if rs = [] then JNull else JArray (map encode_jsonRPCResponse rs))"

section \<open>client.go, server part: ServeHTTP\<close>

text \<open>
  The loop over \<^verbatim>\<open>requestData.requests\<close>. \<open>json_Marshal\<close> is \<^verbatim>\<open>json.Marshal\<close> on the
  application's response values. The slice \<^verbatim>\<open>responses\<close> starts nil and is only
  appended to: it is the list of its elements, the empty list being the nil slice.
\<close>

fun ServeHTTP_loop ::
  "('a \<Rightarrow> go_error + json) \<Rightarrow> ('c, 'a, 'w) memory \<Rightarrow> ('c, 'a, 'w) Server \<Rightarrow> 'c
     \<Rightarrow> jsonRPCRequest list \<Rightarrow> jsonRPCResponse list \<Rightarrow> 'w \<Rightarrow> jsonRPCResponse list \<times> 'w"
where
  "ServeHTTP_loop json_Marshal mem s ctx [] responses w = (responses, w)"
| "ServeHTTP_loop json_Marshal mem s ctx (req # reqs) responses w =
     (case methods s (Method req) of
        None \<Rightarrow>
          ServeHTTP_loop json_Marshal mem s ctx reqs
            (responses @ [makeErrorResponse (jsonRPCRequest.ID req) jsonRPCMethodNotFoundError
                            (''method '' @ Method req @ '' not found'')]) w
      | Some method \<Rightarrow>
          (case handleMethod mem method ctx (Params req) w of
             (Inl err, w') \<Rightarrow>
               ServeHTTP_loop json_Marshal mem s ctx reqs
                 (responses @ [makeErrorResponse (jsonRPCRequest.ID req) jsonRPCInternalError
                                 (errString err)]) w'
           | (Inr resp, w') \<Rightarrow>
               (case json_Marshal resp of
                  Inl err \<Rightarrow>
                    ServeHTTP_loop json_Marshal mem s ctx reqs
                      (responses @ [makeErrorResponse (jsonRPCRequest.ID req) jsonRPCInternalError
                                      (errString err)]) w'
                | Inr result \<Rightarrow>
                    ServeHTTP_loop json_Marshal mem s ctx reqs
                      (responses @ [\<lparr>jsonRPCResponse.ID = jsonRPCRequest.ID req, Version = ''2.0'',
                                      Error = None, Result = Some result\<rparr>]) w')))"

text \<open>
  \<^verbatim>\<open>ServeHTTP\<close> up to \<^verbatim>\<open>var data any\<close>: the decoded request data, the responses and
  the world.
\<close>

definition ServeHTTP_responses ::
  "('a \<Rightarrow> go_error + json) \<Rightarrow> ('c, 'a, 'w) memory \<Rightarrow> ('c, 'a, 'w) Server \<Rightarrow> 'c \<Rightarrow> body \<Rightarrow> 'w
     \<Rightarrow> jsonRPCRequestData \<times> jsonRPCResponse list \<times> 'w"
where
  "ServeHTTP_responses json_Marshal mem s ctx b w =
     (case Decode b \<lparr>requests = [], isBatch = False\<rparr> of
        (Some err, requestData) \<Rightarrow>
          (requestData, [] @ [makeErrorResponse JNull jsonRPCParseError (errString err)], w)
      | (None, requestData) \<Rightarrow>
          (case ServeHTTP_loop json_Marshal mem s ctx (requests requestData) [] w of
             (responses, w') \<Rightarrow> (requestData, responses, w')))"

text \<open>
  The rest of \<^verbatim>\<open>ServeHTTP\<close>: what the encoder writes to the response, or the panic of
  \<^verbatim>\<open>responses[0]\<close> on an empty slice.
\<close>

definition ServeHTTP_data :: "jsonRPCRequestData \<Rightarrow> jsonRPCResponse list \<Rightarrow> panic + json" where
  "ServeHTTP_data requestData responses =
     (if isBatch requestData then Inr (encode_jsonRPCResponses responses)
      else (case responses of
              [] \<Rightarrow> Inl IndexOutOfRange
            | r # _ \<Rightarrow> Inr (encode_jsonRPCResponse r)))"

definition ServeHTTP ::
  "('a \<Rightarrow> go_error + json) \<Rightarrow> ('c, 'a, 'w) memory \<Rightarrow> ('c, 'a, 'w) Server \<Rightarrow> 'c \<Rightarrow> body \<Rightarrow> 'w
     \<Rightarrow> (panic + json) \<times> 'w"
where
  "ServeHTTP json_Marshal mem s ctx b w =
     (case ServeHTTP_responses json_Marshal mem s ctx b w of
        (requestData, responses, w') \<Rightarrow> (ServeHTTP_data requestData responses, w'))"

section \<open>One iteration of the dispatch loop\<close>

text \<open>
  The body of the loop of \<^verbatim>\<open>ServeHTTP\<close> for one request: the response it appends and
  the world it leaves. Every path through the body appends exactly one response.
\<close>

definition ServeHTTP_step ::
  "('a \<Rightarrow> go_error + json) \<Rightarrow> ('c, 'a, 'w) memory \<Rightarrow> ('c, 'a, 'w) Server \<Rightarrow> 'c
     \<Rightarrow> jsonRPCRequest \<Rightarrow> 'w \<Rightarrow> jsonRPCResponse \<times> 'w"
where
  "ServeHTTP_step json_Marshal mem s ctx req w =
     (case methods s (Method req) of
        None \<Rightarrow>
          (makeErrorResponse (jsonRPCRequest.ID req) jsonRPCMethodNotFoundError
             (''method '' @ Method req @ '' not found''), w)
      | Some method \<Rightarrow>
          (case handleMethod mem method ctx (Params req) w of
             (Inl err, w') \<Rightarrow>
               (makeErrorResponse (jsonRPCRequest.ID req) jsonRPCInternalError (errString err), w')
           | (Inr resp, w') \<Rightarrow>
               (case json_Marshal resp of
                  Inl err \<Rightarrow>
                    (makeErrorResponse (jsonRPCRequest.ID req) jsonRPCInternalError (errString err), w')
                | Inr result \<Rightarrow>
                    (\<lparr>jsonRPCResponse.ID = jsonRPCRequest.ID req, Version = ''2.0'',
                      Error = None, Result = Some result\<rparr>, w'))))"

section \<open>A client connected to a server\<close>

text \<open>
  The HTTP exchange between a client and a server of this package, as a transport of the
  client: the body the client sends is the body \<^verbatim>\<open>ServeHTTP\<close> reads, and what the
  server writes comes back with status 200 as \<open>n\<close> bytes. A server that panics closes
  the connection, and the transport returns an error.
\<close>

definition served_by ::
  "('a \<Rightarrow> go_error + json) \<Rightarrow> ('sc, 'a, 'w) memory \<Rightarrow> ('sc, 'a, 'w) Server \<Rightarrow> 'sc \<Rightarrow> nat
     \<Rightarrow> ('c, 'w) http_Client"
where
  "served_by sm mem s sctx n = (\<lambda>rctx reqBuf w.
     case ServeHTTP sm mem s sctx (Inr reqBuf) w of
       (Inr written, w') \<Rightarrow>
         (Inr \<lparr>StatusCode = 200, Status = ''200 OK'', Body = Inr (n, Inr written)\<rparr>, w')
     | (Inl p, w') \<Rightarrow> (Inl (GoError ''EOF''), w'))"

section \<open>Example servers and bodies\<close>

text \<open>
  A server with the one method \<^verbatim>\<open>add\<close>, whose endpoint adds two numbers and records its
  call, and the batch \<^verbatim>\<open>add(2, 3)\<close>, \<^verbatim>\<open>bogus()\<close>. Contexts are trivial, application
  values are JSON values, and \<^verbatim>\<open>json.Marshal\<close> on them is \<open>Inr\<close>.
\<close>

definition add_endpoint :: "(unit, json, event list) Endpoint" where
  "add_endpoint ctx request w =
     (case request of
        JArray [JNumber a, JNumber b] \<Rightarrow> ((JNumber (a + b), None), w @ [Call ''add''])
      | _ \<Rightarrow> ((JNull, Some (GoError ''add: two numbers expected'')), w @ [Call ''add'']))"

definition params_decode :: "(unit, json, event list) ReqDecode" where
  "params_decode ctx params w =
     (case params of
        Some j \<Rightarrow> ((j, None), w)
      | None \<Rightarrow> ((JNull, Some (GoError ''params expected'')), w))"

definition add_server :: "(unit, json, event list) memory \<times> (unit, json, event list) Server" where
  "add_server =
     (case NewServer nextslicecap empty_memory [] of
        (mem, s) \<Rightarrow>
          (case Register nextslicecap mem s ''add'' add_endpoint params_decode [] of
             (mem', s', sm) \<Rightarrow> (mem', s')))"

definition add_then_bogus :: json where
  "add_then_bogus =
     JArray [JObject [(''jsonrpc'', JString ''2.0''), (''id'', JNumber 1), (''method'', JString ''add''),
                      (''params'', JArray [JNumber 2, JNumber 3])],
             JObject [(''jsonrpc'', JString ''2.0''), (''id'', JNumber 2), (''method'', JString ''bogus'')]]"

text \<open>
  A server constructed with three server-wide middleware options, on which two methods
  are registered, each with one middleware of its own: the memory and the server after
  the first registration, and after the second. The body \<open>call_m1\<close> is a single call of
  the first method.
\<close>

definition two_methods ::
  "((unit, json, event list) memory \<times> (unit, json, event list) Server)
   \<times> ((unit, json, event list) memory \<times> (unit, json, event list) Server)"
where
  "two_methods =
     (case NewServer nextslicecap empty_memory
             [EndpointMiddleware [observing ''A''], EndpointMiddleware [observing ''B''],
              EndpointMiddleware [observing ''C'']] of
        (mem0, s0) \<Rightarrow>
          (case Register nextslicecap mem0 s0 ''m1'' (observed ''e1'' (\<lambda>ctx request. (request, None)))
                  params_decode [EndpointMiddleware [observing ''X'']] of
             (mem1, s1, sm1) \<Rightarrow>
               (case Register nextslicecap mem1 s1 ''m2'' (observed ''e2'' (\<lambda>ctx request. (request, None)))
                       params_decode [EndpointMiddleware [observing ''Y'']] of
                  (mem2, s2, sm2) \<Rightarrow> ((mem1, s1), (mem2, s2)))))"

definition call_m1 :: json where
  "call_m1 = JObject [(''jsonrpc'', JString ''2.0''), (''id'', JNumber 1), (''method'', JString ''m1''),
                      (''params'', JString ''hi'')]"

section \<open>Example client and responses\<close>

text \<open>
  A request that sends a method name with one parameter and takes the raw result as
  its result, and a client whose transport answers every call with status 200 and the
  given bytes. The counter of the client starts at 7, as after earlier calls.
\<close>

definition echo_request :: "string \<Rightarrow> json \<Rightarrow> (unit, event list, json, json) Requester" where
  "echo_request m p =
     \<lparr>MakeRequest = (m, Some p),
      MakeResult = (\<lambda>raw. case raw of Some j \<Rightarrow> Inr j | None \<Rightarrow> Inl (GoError ''no result'')),
      Context = None, Requester.Before = [], Requester.After = []\<rparr>"

definition canned_client :: "data \<Rightarrow> (unit, event list) Client" where
  "canned_client d =
     \<lparr>target = ''http://localhost/rpc'', incrementID = 7,
      Client.opts =
        \<lparr>opts_ctx = None, clientOptions.before = [], clientOptions.after = [],
         httpClient = (\<lambda>rctx reqBuf w.
           (Inr \<lparr>StatusCode = 200, Status = ''200 OK'', Body = Inr (100, d)\<rparr>, w @ [Call ''POST'']))\<rparr>\<rparr>"

text \<open>
  A success envelope as a server writes it, and two bodies answering a batch of two
  requests: the two envelopes in reverse order, and the two envelopes followed by one
  whose id (99) the batch never assigned.
\<close>

definition result_envelope :: "int \<Rightarrow> json \<Rightarrow> json" where
  "result_envelope n j = JObject [(''id'', JNumber n), (''jsonrpc'', JString ''2.0''), (''result'', j)]"

definition swapped_results :: data where
  "swapped_results =
     Inr (JArray [result_envelope 2 (JString ''second''), result_envelope 1 (JString ''first'')])"

definition stranger_results :: data where
  "stranger_results =
     Inr (JArray [result_envelope 1 (JString ''first''), result_envelope 2 (JString ''second''),
                  result_envelope 99 (JString ''stranger'')])"

definition two_echo :: "(unit, event list, json, json) Requester list" where
  "two_echo = [echo_request ''a'' (JString ''x''), echo_request ''b'' (JString ''y'')]"

text \<open>
  What the client's decoder makes of the encoding of a server response whose id is a
  number in the range of \<^verbatim>\<open>uint64\<close>.
\<close>

definition client_view :: "jsonRPCResponse \<Rightarrow> clientResp" where
  "client_view r =
     \<lparr>clientResp.ID = (case jsonRPCResponse.ID r of JNumber n \<Rightarrow> word_of_int n | _ \<Rightarrow> 0),
      Version = jsonRPCResponse.Version r,
      Error = map_option (\<lambda>e. \<lparr>clientError.Code = Code e, Message = Message e, Data = Data e\<rparr>) (Error r),
      Result = Result r\<rparr>"

text \<open>
  A client connected to a given server. With it, the
  batch \<^verbatim>\<open>add(2, 3)\<close>, \<^verbatim>\<open>bogus()\<close> and the responses the server with the one method
  \<^verbatim>\<open>add\<close> gives to it.
\<close>

definition loopback_client ::
  "(unit, json, event list) memory \<times> (unit, json, event list) Server \<Rightarrow> (unit, event list) Client"
where
  "loopback_client ms =
     \<lparr>target = ''http://localhost/rpc'', incrementID = 0,
      Client.opts =
        \<lparr>opts_ctx = None, clientOptions.before = [], clientOptions.after = [],
         httpClient = served_by Inr (fst ms) (snd ms) () 100\<rparr>\<rparr>"

definition add_and_bogus :: "(unit, event list, json, json) Requester list" where
  "add_and_bogus = [echo_request ''add'' (JArray [JNumber 2, JNumber 3]), echo_request ''bogus'' JNull]"

definition add_and_bogus_responses :: "jsonRPCResponse list" where
  "add_and_bogus_responses =
     [\<lparr>jsonRPCResponse.ID = JNumber 1, Version = ''2.0'', Error = None, Result = Some (JNumber 5)\<rparr>,
      \<lparr>jsonRPCResponse.ID = JNumber 2, Version = ''2.0'',
       Error = Some \<lparr>Code = - 32601, Message = ''method bogus not found'', Data = JNull\<rparr>,
       Result = None\<rparr>]"





section \<open>The middleware chain\<close>

lemma middlewareChain_loop_foldr:
  "i \<le> length others \<Longrightarrow>
   middlewareChain_loop others i inner = foldr (\<lambda>m e. m e) (take i others) inner"
proof (induction i arbitrary: inner)
  case 0
  show ?case by simp
next
  case (Suc i)
  then have i: "i < length others" by simp
  have "take (Suc i) others = take i others @ [others ! i]"
    using i by (simp add: take_Suc_conv_app_nth)
  with Suc show ?case by simp
qed

lemma middlewareChain_foldr:
  "middlewareChain ms next = foldr (\<lambda>m e. m e) ms next"
proof (cases ms)
  case Nil
  then show ?thesis by (simp add: middlewareChain_def)
next
  case (Cons m rest)
  then show ?thesis
    by (simp add: middlewareChain_def middlewareChain_loop_foldr)
qed

lemma observing_apply:
  "observing name inner ctx request w =
     (case inner ctx request (w @ [Enter name]) of (r, w') \<Rightarrow> (r, w' @ [Exit name]))"
  by (simp add: observing_def)

lemma observing_chain_trace:
  "snd (foldr (\<lambda>m e. m e) (map observing names) (observed e f) ctx request w)
     = w @ map Enter names @ [Call e] @ rev (map Exit names)"
proof (induction names arbitrary: w)
  case Nil
  show ?case by (simp add: observed_def)
next
  case (Cons n names)
  obtain r w' where run:
    "foldr (\<lambda>m e. m e) (map observing names) (observed e f) ctx request (w @ [Enter n]) = (r, w')"
    by (cases "foldr (\<lambda>m e. m e) (map observing names) (observed e f) ctx request (w @ [Enter n])")
  from Cons [of "w @ [Enter n]"] run
  have "w' = w @ [Enter n] @ map Enter names @ [Call e] @ rev (map Exit names)"
    by simp
  moreover
  have "foldr (\<lambda>m e. m e) (map observing (n # names)) (observed e f) ctx request w
          = observing n (foldr (\<lambda>m e. m e) (map observing names) (observed e f)) ctx request w"
    by simp
  then have "foldr (\<lambda>m e. m e) (map observing (n # names)) (observed e f) ctx request w
          = (r, w' @ [Exit n])"
    by (simp only: observing_apply run prod.case)
  ultimately show ?case
    by simp
qed

text \<open>
  C2. The composer applied to the empty list returns the endpoint it is given; applied
  to \<open>[A, B, C]\<close> and \<open>E\<close> it returns \<open>A (B (C E))\<close>, the first element outermost; and
  a call through three observing middlewares records the enter events of A, B, C, then
  the endpoint, then the exit events of C, B, A.
\<close>

theorem middlewareChain_first_is_outermost:
  "middlewareChain [] E = E
   \<and> middlewareChain [A, B, C] E = A (B (C E))
   \<and> snd (middlewareChain [observing a, observing b, observing c] (observed e f) ctx request w)
       = w @ [Enter a, Enter b, Enter c, Call e, Exit c, Exit b, Exit a]"
proof -
  have "snd (middlewareChain (map observing [a, b, c]) (observed e f) ctx request w)
          = w @ map Enter [a, b, c] @ [Call e] @ rev (map Exit [a, b, c])"
    unfolding middlewareChain_foldr by (rule observing_chain_trace)
  then show ?thesis by (simp add: middlewareChain_foldr)
qed

section \<open>The dispatch loop\<close>

lemma ServeHTTP_loop_Cons:
  "ServeHTTP_loop jm mem s ctx (req # reqs) acc w =
     ServeHTTP_loop jm mem s ctx reqs (acc @ [fst (ServeHTTP_step jm mem s ctx req w)])
       (snd (ServeHTTP_step jm mem s ctx req w))"
  by (simp add: ServeHTTP_step_def split: option.splits sum.splits prod.splits)

lemma ServeHTTP_loop_acc:
  "ServeHTTP_loop jm mem s ctx reqs acc w =
     (acc @ fst (ServeHTTP_loop jm mem s ctx reqs [] w), snd (ServeHTTP_loop jm mem s ctx reqs [] w))"
proof (induction reqs arbitrary: acc w)
  case Nil
  show ?case by simp
next
  case (Cons req reqs)
  let ?r = "fst (ServeHTTP_step jm mem s ctx req w)"
  let ?w = "snd (ServeHTTP_step jm mem s ctx req w)"
  show ?case
    unfolding ServeHTTP_loop_Cons
    using Cons.IH [of "acc @ [?r]" ?w] Cons.IH [of "[] @ [?r]" ?w]
    by simp
qed

lemma ServeHTTP_loop_step:
  "ServeHTTP_loop jm mem s ctx (req # reqs) [] w =
     (fst (ServeHTTP_step jm mem s ctx req w)
        # fst (ServeHTTP_loop jm mem s ctx reqs [] (snd (ServeHTTP_step jm mem s ctx req w))),
      snd (ServeHTTP_loop jm mem s ctx reqs [] (snd (ServeHTTP_step jm mem s ctx req w))))"
  unfolding ServeHTTP_loop_Cons
  by (subst ServeHTTP_loop_acc) simp

lemma ServeHTTP_loop_length:
  "length (fst (ServeHTTP_loop jm mem s ctx reqs [] w)) = length reqs"
  by (induction reqs arbitrary: w) (simp_all add: ServeHTTP_loop_step del: ServeHTTP_loop.simps(2))

lemma ServeHTTP_step_unknown:
  "methods s (Method req) = None \<Longrightarrow>
   ServeHTTP_step jm mem s ctx req w =
     (makeErrorResponse (jsonRPCRequest.ID req) jsonRPCMethodNotFoundError
        (''method '' @ Method req @ '' not found''), w)"
  by (simp add: ServeHTTP_step_def)

lemma ServeHTTP_loop_unknown:
  "i < length reqs \<Longrightarrow> methods s (Method (reqs ! i)) = None \<Longrightarrow>
   fst (ServeHTTP_loop jm mem s ctx reqs [] w) ! i =
     makeErrorResponse (jsonRPCRequest.ID (reqs ! i)) jsonRPCMethodNotFoundError
       (''method '' @ Method (reqs ! i) @ '' not found'')"
proof (induction reqs arbitrary: i w)
  case Nil
  then show ?case by simp
next
  case (Cons req reqs)
  show ?case
  proof (cases i)
    case 0
    with Cons.prems show ?thesis
      by (simp add: ServeHTTP_loop_step ServeHTTP_step_unknown del: ServeHTTP_loop.simps(2))
  next
    case (Suc j)
    with Cons.prems Cons.IH [of j] show ?thesis
      by (simp add: ServeHTTP_loop_step del: ServeHTTP_loop.simps(2))
  qed
qed

lemma ServeHTTP_loop_siblings:
  "ServeHTTP_loop jm mem s ctx (filter (\<lambda>req. methods s (Method req) \<noteq> None) reqs) [] w =
     (map snd (filter (\<lambda>(req, r). methods s (Method req) \<noteq> None)
                 (zip reqs (fst (ServeHTTP_loop jm mem s ctx reqs [] w)))),
      snd (ServeHTTP_loop jm mem s ctx reqs [] w))"
proof (induction reqs arbitrary: w)
  case Nil
  show ?case by simp
next
  case (Cons req reqs)
  show ?case
  proof (cases "methods s (Method req)")
    case None
    then show ?thesis
      using Cons.IH [of w]
      by (simp add: ServeHTTP_loop_step ServeHTTP_step_unknown del: ServeHTTP_loop.simps(2))
  next
    case (Some m)
    then show ?thesis
      using Cons.IH [of "snd (ServeHTTP_step jm mem s ctx req w)"]
      by (simp add: ServeHTTP_loop_step del: ServeHTTP_loop.simps(2))
  qed
qed

lemma names_field_simps:
  "names_field ''jsonrpc'' ''id'' = False" "names_field ''jsonrpc'' ''jsonrpc'' = True"
  "names_field ''id'' ''id'' = True"
  "names_field ''method'' ''id'' = False"
  "names_field ''method'' ''jsonrpc'' = False"
  "names_field ''method'' ''method'' = True"
  "names_field ''params'' ''id'' = False"
  "names_field ''params'' ''jsonrpc'' = False"
  "names_field ''params'' ''method'' = False"
  "names_field ''params'' ''params'' = True"
  by (simp_all add: names_field_def toLower_def)

lemma decode_add_then_bogus:
  "Decode (Inr add_then_bogus) \<lparr>requests = [], isBatch = False\<rparr> =
     (None, \<lparr>requests = [\<lparr>jsonRPCRequest.ID = JNumber 1, Version = ''2.0'', Method = ''add'',
                            Params = Some (JArray [JNumber 2, JNumber 3])\<rparr>,
                          \<lparr>jsonRPCRequest.ID = JNumber 2, Version = ''2.0'', Method = ''bogus'',
                            Params = None\<rparr>],
             isBatch = True\<rparr>)"
  by (simp add: add_then_bogus_def UnmarshalJSON_def zero_jsonRPCRequest_def names_field_simps)

lemma add_server_eval:
  "methods (snd add_server) ''add'' = Some \<lparr>endpoint = add_endpoint, reqDecode = params_decode,
      method_opts = \<lparr>before = nil_slice, after = nil_slice, middleware = nil_slice\<rparr>\<rparr>"
  "methods (snd add_server) ''bogus'' = None"
  by (simp_all add: add_server_def NewServer_def Register_def Let_def)

lemma elems_nil: "elems h nil_slice = []"
  by (simp add: elems_def nil_slice_def)

lemma decode_call_m1:
  "UnmarshalJSON \<lparr>requests = [], isBatch = False\<rparr> call_m1 =
     (None, \<lparr>requests = [\<lparr>jsonRPCRequest.ID = JNumber 1, Version = ''2.0'', Method = ''m1'',
                            Params = Some (JString ''hi'')\<rparr>],
             isBatch = False\<rparr>)"
  by (simp add: call_m1_def UnmarshalJSON_def zero_jsonRPCRequest_def names_field_simps)

lemma sint_codes:
  "sint jsonRPCParseError = - 32700" "sint jsonRPCMethodNotFoundError = - 32601"
  "sint jsonRPCInternalError = - 32603"
  by (simp_all add: jsonRPCParseError_def jsonRPCMethodNotFoundError_def jsonRPCInternalError_def)

lemma ServeHTTP_responses_decoded:
  assumes "Decode b \<lparr>requests = [], isBatch = False\<rparr> = (None, rd)"
  shows "ServeHTTP_responses jm mem s ctx b w =
           (rd, fst (ServeHTTP_loop jm mem s ctx (requests rd) [] w),
            snd (ServeHTTP_loop jm mem s ctx (requests rd) [] w))"
  using assms by (simp add: ServeHTTP_responses_def split: prod.splits)

lemma ServeHTTP_responses_failed:
  assumes "Decode b \<lparr>requests = [], isBatch = False\<rparr> = (Some err, rd)"
  shows "ServeHTTP_responses jm mem s ctx b w =
           (rd, [makeErrorResponse JNull jsonRPCParseError (errString err)], w)"
  using assms by (simp add: ServeHTTP_responses_def)

lemma Decode_isBatch:
  assumes "Decode b \<lparr>requests = [], isBatch = False\<rparr> = (e, rd)"
  shows "isBatch rd = (case b of Inl _ \<Rightarrow> False | Inr j \<Rightarrow> HasPrefix_bracket j)"
  using assms
  by (cases b) (auto simp: UnmarshalJSON_def Let_def split: if_splits sum.splits)

lemma Decode_single_length:
  assumes "Decode b \<lparr>requests = [], isBatch = False\<rparr> = (None, rd)" "\<not> isBatch rd"
  shows "length (requests rd) = 1"
  using assms
  by (cases b) (auto simp: UnmarshalJSON_def Let_def split: if_splits sum.splits)

lemma ServeHTTP_loop_nth:
  "i < length reqs \<Longrightarrow>
   fst (ServeHTTP_loop jm mem s ctx reqs [] w) ! i =
     fst (ServeHTTP_step jm mem s ctx (reqs ! i)
            (snd (ServeHTTP_loop jm mem s ctx (take i reqs) [] w)))"
proof (induction reqs arbitrary: i w)
  case Nil
  then show ?case by simp
next
  case (Cons req reqs)
  show ?case
  proof (cases i)
    case 0
    then show ?thesis
      by (simp add: ServeHTTP_loop_step del: ServeHTTP_loop.simps(2))
  next
    case (Suc j)
    with Cons.prems Cons.IH [of j] show ?thesis
      by (simp add: ServeHTTP_loop_step del: ServeHTTP_loop.simps(2))
  qed
qed

lemma ServeHTTP_step_unfolded:
  "fst (ServeHTTP_step jm mem s ctx req w) =
     (case methods s (Method req) of
        None \<Rightarrow>
          \<lparr>jsonRPCResponse.ID = jsonRPCRequest.ID req, Version = ''2.0'',
           Error = Some \<lparr>Code = - 32601, Message = ''method '' @ Method req @ '' not found'',
                         Data = JNull\<rparr>,
           Result = None\<rparr>
      | Some method \<Rightarrow>
          (case handleMethod mem method ctx (Params req) w of
             (Inl err, w1) \<Rightarrow>
               \<lparr>jsonRPCResponse.ID = jsonRPCRequest.ID req, Version = ''2.0'',
                Error = Some \<lparr>Code = - 32603, Message = errString err, Data = JNull\<rparr>,
                Result = None\<rparr>
           | (Inr resp, w1) \<Rightarrow>
               (case jm resp of
                  Inl err \<Rightarrow>
                    \<lparr>jsonRPCResponse.ID = jsonRPCRequest.ID req, Version = ''2.0'',
                     Error = Some \<lparr>Code = - 32603, Message = errString err, Data = JNull\<rparr>,
                     Result = None\<rparr>
                | Inr result \<Rightarrow>
                    \<lparr>jsonRPCResponse.ID = jsonRPCRequest.ID req, Version = ''2.0'',
                     Error = None, Result = Some result\<rparr>)))"
  by (simp add: ServeHTTP_step_def makeErrorResponse_def Version_const_def
      jsonRPCMethodNotFoundError_def jsonRPCInternalError_def
      split: option.splits prod.splits sum.splits)

lemma encode_method_not_found:
  "encode_jsonRPCResponse
     \<lparr>jsonRPCResponse.ID = i, Version = ''2.0'',
      Error = Some \<lparr>Code = - 32601, Message = m, Data = JNull\<rparr>, Result = None\<rparr> =
   JObject [(''id'', i), (''jsonrpc'', JString ''2.0''),
            (''error'', JObject [(''code'', JNumber (- 32601)), (''message'', JString m)])]"
  by (simp add: encode_jsonRPCResponse_def encode_jsonRPCError_def)

section \<open>Per-element failure isolation\<close>

text \<open>
  C7. When the body decodes to the requests \<open>requests rd\<close>, the server produces one
  response per request, in order. Each request whose method is not registered gets the
  envelope with its own id, version 2.0, no result and the error with code -32601, the
  message naming the method and no data; the envelope is written as the object with
  the members id, jsonrpc and error. Each request with a registered method is handed
  to \<^verbatim>\<open>handleMethod\<close> in the world the elements before it have left, and gets the
  envelope with its own id and the marshalled result, or the error -32603 with the
  message of the failure. The requests with a registered method get the responses, and
  leave the world, that the server produces for the batch from which the unknown ones
  are removed.
\<close>

theorem unknown_method_is_isolated:
  assumes "Decode b \<lparr>requests = [], isBatch = False\<rparr> = (None, rd)"
    and "ServeHTTP_responses jm mem s ctx b w = (rd', responses, w')"
  shows "length responses = length (requests rd)
    \<and> (\<forall>i < length (requests rd). methods s (Method (requests rd ! i)) = None \<longrightarrow>
          responses ! i =
            \<lparr>jsonRPCResponse.ID = jsonRPCRequest.ID (requests rd ! i), Version = ''2.0'',
             Error = Some \<lparr>Code = - 32601,
                           Message = ''method '' @ Method (requests rd ! i) @ '' not found'',
                           Data = JNull\<rparr>,
             Result = None\<rparr>
          \<and> encode_jsonRPCResponse (responses ! i) =
              JObject [(''id'', jsonRPCRequest.ID (requests rd ! i)), (''jsonrpc'', JString ''2.0''),
                       (''error'', JObject [(''code'', JNumber (- 32601)),
                          (''message'', JString (''method '' @ Method (requests rd ! i) @ '' not found''))])])
    \<and> (\<forall>i < length (requests rd). \<forall>method.
          methods s (Method (requests rd ! i)) = Some method \<longrightarrow>
          responses ! i =
            (case handleMethod mem method ctx (Params (requests rd ! i))
                    (snd (ServeHTTP_loop jm mem s ctx (take i (requests rd)) [] w)) of
               (Inl err, w1) \<Rightarrow>
                 \<lparr>jsonRPCResponse.ID = jsonRPCRequest.ID (requests rd ! i), Version = ''2.0'',
                  Error = Some \<lparr>Code = - 32603, Message = errString err, Data = JNull\<rparr>,
                  Result = None\<rparr>
             | (Inr resp, w1) \<Rightarrow>
                 (case jm resp of
                    Inl err \<Rightarrow>
                      \<lparr>jsonRPCResponse.ID = jsonRPCRequest.ID (requests rd ! i), Version = ''2.0'',
                       Error = Some \<lparr>Code = - 32603, Message = errString err, Data = JNull\<rparr>,
                       Result = None\<rparr>
                  | Inr result \<Rightarrow>
                      \<lparr>jsonRPCResponse.ID = jsonRPCRequest.ID (requests rd ! i), Version = ''2.0'',
                       Error = None, Result = Some result\<rparr>)))
    \<and> ServeHTTP_loop jm mem s ctx (filter (\<lambda>req. methods s (Method req) \<noteq> None) (requests rd)) [] w =
        (map snd (filter (\<lambda>(req, r). methods s (Method req) \<noteq> None) (zip (requests rd) responses)), w')"
proof -
  from assms have r: "responses = fst (ServeHTTP_loop jm mem s ctx (requests rd) [] w)"
    and w: "w' = snd (ServeHTTP_loop jm mem s ctx (requests rd) [] w)"
    by (auto simp: ServeHTTP_responses_decoded)
  have nth: "responses ! i =
      fst (ServeHTTP_step jm mem s ctx (requests rd ! i)
             (snd (ServeHTTP_loop jm mem s ctx (take i (requests rd)) [] w)))"
    if "i < length (requests rd)" for i
    unfolding r using that by (rule ServeHTTP_loop_nth)
  have unknown: "responses ! i =
            \<lparr>jsonRPCResponse.ID = jsonRPCRequest.ID (requests rd ! i), Version = ''2.0'',
             Error = Some \<lparr>Code = - 32601,
                           Message = ''method '' @ Method (requests rd ! i) @ '' not found'',
                           Data = JNull\<rparr>,
             Result = None\<rparr>"
    if "i < length (requests rd)" "methods s (Method (requests rd ! i)) = None" for i
    using nth [OF that(1)] that(2) by (simp add: ServeHTTP_step_unfolded)
  have known: "responses ! i =
            (case handleMethod mem m ctx (Params (requests rd ! i))
                    (snd (ServeHTTP_loop jm mem s ctx (take i (requests rd)) [] w)) of
               (Inl err, w1) \<Rightarrow>
                 \<lparr>jsonRPCResponse.ID = jsonRPCRequest.ID (requests rd ! i), Version = ''2.0'',
                  Error = Some \<lparr>Code = - 32603, Message = errString err, Data = JNull\<rparr>,
                  Result = None\<rparr>
             | (Inr resp, w1) \<Rightarrow>
                 (case jm resp of
                    Inl err \<Rightarrow>
                      \<lparr>jsonRPCResponse.ID = jsonRPCRequest.ID (requests rd ! i), Version = ''2.0'',
                       Error = Some \<lparr>Code = - 32603, Message = errString err, Data = JNull\<rparr>,
                       Result = None\<rparr>
                  | Inr result \<Rightarrow>
                      \<lparr>jsonRPCResponse.ID = jsonRPCRequest.ID (requests rd ! i), Version = ''2.0'',
                       Error = None, Result = Some result\<rparr>))"
    if "i < length (requests rd)" "methods s (Method (requests rd ! i)) = Some m" for i m
    using nth [OF that(1)] that(2) by (simp add: ServeHTTP_step_unfolded)
  have len: "length responses = length (requests rd)"
    unfolding r by (rule ServeHTTP_loop_length)
  have sib: "ServeHTTP_loop jm mem s ctx
            (filter (\<lambda>req. methods s (Method req) \<noteq> None) (requests rd)) [] w =
          (map snd (filter (\<lambda>(req, r). methods s (Method req) \<noteq> None)
                      (zip (requests rd) responses)), w')"
    unfolding r w by (rule ServeHTTP_loop_siblings)
  from len unknown known sib show ?thesis
    by (simp add: encode_method_not_found)
qed

section \<open>The index expression of ServeHTTP\<close>

text \<open>
  C10. \<^verbatim>\<open>ServeHTTP\<close> does not panic on \<^verbatim>\<open>responses[0]\<close>: for every body, when the
  request data is not marked as a batch, exactly one response has been appended by the
  time index 0 is read.
\<close>

theorem ServeHTTP_index_in_range:
  "fst (ServeHTTP jm mem s ctx b w) \<noteq> Inl IndexOutOfRange
   \<and> (\<not> isBatch (fst (ServeHTTP_responses jm mem s ctx b w)) \<longrightarrow>
        length (fst (snd (ServeHTTP_responses jm mem s ctx b w))) = 1)"
proof -
  obtain e rd where d: "Decode b \<lparr>requests = [], isBatch = False\<rparr> = (e, rd)"
    by (cases "Decode b \<lparr>requests = [], isBatch = False\<rparr>")
  show ?thesis
  proof (cases e)
    case None
    obtain rs w1 where L: "ServeHTTP_loop jm mem s ctx (requests rd) [] w = (rs, w1)"
      by (cases "ServeHTTP_loop jm mem s ctx (requests rd) [] w")
    from d None L have R: "ServeHTTP_responses jm mem s ctx b w = (rd, rs, w1)"
      by (simp add: ServeHTTP_responses_decoded)
    have "length rs = length (requests rd)"
      using ServeHTTP_loop_length [of jm mem s ctx "requests rd" w] L by simp
    with d None have len: "\<not> isBatch rd \<Longrightarrow> length rs = 1"
      by (simp add: Decode_single_length)
    show ?thesis
      using len by (cases rs) (auto simp: ServeHTTP_def R ServeHTTP_data_def)
  next
    case (Some err)
    with d show ?thesis
      by (simp add: ServeHTTP_def ServeHTTP_responses_failed ServeHTTP_data_def)
  qed
qed

section \<open>Bodies that fail to decode\<close>

text \<open>
  C8, as amended. When the decoding of the body fails, the server produces exactly one
  response, the error response with id null, code -32700 and the message of the
  decoder's error, and calls no handler (the world is unchanged). It writes that
  response unwrapped unless the body is the text of a JSON array, whose elements then
  failed to decode as request envelopes: in that case it writes a one-element array
  holding the response.
\<close>

theorem decode_failure_is_one_parse_error:
  assumes "Decode b \<lparr>requests = [], isBatch = False\<rparr> = (Some err, rd)"
  shows "ServeHTTP_responses jm mem s ctx b w =
           (rd, [makeErrorResponse JNull jsonRPCParseError (errString err)], w)
    \<and> sint jsonRPCParseError = - 32700
    \<and> ServeHTTP jm mem s ctx b w =
        (Inr (case b of
                Inr (JArray js) \<Rightarrow>
                  JArray [encode_jsonRPCResponse (makeErrorResponse JNull jsonRPCParseError (errString err))]
              | _ \<Rightarrow> encode_jsonRPCResponse (makeErrorResponse JNull jsonRPCParseError (errString err))), w)"
proof -
  have batch: "isBatch rd = (case b of Inl _ \<Rightarrow> False | Inr j \<Rightarrow> HasPrefix_bracket j)"
    using assms by (rule Decode_isBatch)
  show ?thesis
    using assms batch
    by (auto simp: ServeHTTP_def ServeHTTP_responses_failed ServeHTTP_data_def sint_codes
        encode_jsonRPCResponses_def split: sum.splits json.splits)
qed

section \<open>Framing of the response\<close>

text \<open>
  C4, at the empty batch. The body \<^verbatim>\<open>[]\<close> decodes to a batch with no requests; the slice
  of responses stays nil, and the encoder writes a nil slice as \<^verbatim>\<open>null\<close>, not as an
  array.
\<close>

theorem empty_batch_is_answered_with_null:
  "ServeHTTP jm mem s ctx (Inr (JArray [])) w = (Inr JNull, w)"
  by (simp add: ServeHTTP_def ServeHTTP_responses_def UnmarshalJSON_def ServeHTTP_data_def
      encode_jsonRPCResponses_def)

text \<open>
  For every body that decodes, the answer to a batch with at least one request is the
  array of its responses in the order of the requests, and the answer to a single
  request is its one response, unwrapped.
\<close>

lemma ServeHTTP_framing:
  assumes "Decode b \<lparr>requests = [], isBatch = False\<rparr> = (None, rd)"
  shows "fst (ServeHTTP jm mem s ctx b w) =
     (if isBatch rd then
        (if requests rd = [] then Inr JNull
         else Inr (JArray (map encode_jsonRPCResponse
                             (fst (ServeHTTP_loop jm mem s ctx (requests rd) [] w)))))
      else Inr (encode_jsonRPCResponse (hd (fst (ServeHTTP_loop jm mem s ctx (requests rd) [] w)))))"
proof -
  obtain rs w1 where L: "ServeHTTP_loop jm mem s ctx (requests rd) [] w = (rs, w1)"
    by (cases "ServeHTTP_loop jm mem s ctx (requests rd) [] w")
  have len: "length rs = length (requests rd)"
    using ServeHTTP_loop_length [of jm mem s ctx "requests rd" w] L by simp
  have R: "ServeHTTP_responses jm mem s ctx b w = (rd, rs, w1)"
    using ServeHTTP_responses_decoded [OF assms, of jm mem s ctx w] L by simp
  show ?thesis
  proof (cases "isBatch rd")
    case True
    with len show ?thesis
      by (auto simp: ServeHTTP_def R L ServeHTTP_data_def encode_jsonRPCResponses_def)
  next
    case False
    with assms have "length (requests rd) = 1" by (rule Decode_single_length)
    with len obtain r where "rs = [r]" by (cases rs) auto
    with False show ?thesis
      by (simp add: ServeHTTP_def R L ServeHTTP_data_def)
  qed
qed

lemma add_then_bogus_responses:
  "ServeHTTP_responses Inr (fst add_server) (snd add_server) () (Inr add_then_bogus) [] =
     (\<lparr>requests = [\<lparr>jsonRPCRequest.ID = JNumber 1, Version = ''2.0'', Method = ''add'',
                            Params = Some (JArray [JNumber 2, JNumber 3])\<rparr>,
                          \<lparr>jsonRPCRequest.ID = JNumber 2, Version = ''2.0'', Method = ''bogus'',
                            Params = None\<rparr>],
             isBatch = True\<rparr>,
      [\<lparr>jsonRPCResponse.ID = JNumber 1, Version = ''2.0'', Error = None, Result = Some (JNumber 5)\<rparr>,
       \<lparr>jsonRPCResponse.ID = JNumber 2, Version = ''2.0'',
        Error = Some \<lparr>Code = - 32601, Message = ''method bogus not found'', Data = JNull\<rparr>,
        Result = None\<rparr>],
      [Call ''add''])"
  by (simp add: ServeHTTP_responses_def decode_add_then_bogus[simplified] add_server_eval handleMethod_def elems_nil
     middlewareChain_def params_decode_def add_endpoint_def makeErrorResponse_def Version_const_def
     jsonRPCMethodNotFoundError_def)

text \<open>
  The batch \<^verbatim>\<open>add(2, 3)\<close>, \<^verbatim>\<open>bogus()\<close> on the server that registers only \<^verbatim>\<open>add\<close>:
  element 0 is the result 5 with the id 1, element 1 the error -32601 with the id 2,
  and the server writes the array of the two objects.
\<close>

theorem unknown_method_is_isolated_witness:
  "Decode (Inr add_then_bogus) \<lparr>requests = [], isBatch = False\<rparr> =
     (None, \<lparr>requests = [\<lparr>jsonRPCRequest.ID = JNumber 1, Version = ''2.0'', Method = ''add'',
                            Params = Some (JArray [JNumber 2, JNumber 3])\<rparr>,
                          \<lparr>jsonRPCRequest.ID = JNumber 2, Version = ''2.0'', Method = ''bogus'',
                            Params = None\<rparr>],
             isBatch = True\<rparr>)
   \<and> methods (snd add_server) ''bogus'' = None
   \<and> fst (snd (ServeHTTP_responses Inr (fst add_server) (snd add_server) () (Inr add_then_bogus) [])) =
       [\<lparr>jsonRPCResponse.ID = JNumber 1, Version = ''2.0'', Error = None, Result = Some (JNumber 5)\<rparr>,
        \<lparr>jsonRPCResponse.ID = JNumber 2, Version = ''2.0'',
         Error = Some \<lparr>Code = - 32601, Message = ''method bogus not found'', Data = JNull\<rparr>,
         Result = None\<rparr>]
   \<and> ServeHTTP Inr (fst add_server) (snd add_server) () (Inr add_then_bogus) [] =
       (Inr (JArray
          [JObject [(''id'', JNumber 1), (''jsonrpc'', JString ''2.0''), (''result'', JNumber 5)],
           JObject [(''id'', JNumber 2), (''jsonrpc'', JString ''2.0''),
                    (''error'', JObject [(''code'', JNumber (- 32601)),
                                         (''message'', JString ''method bogus not found'')])]]),
        [Call ''add''])
   \<and> ServeHTTP_loop Inr (fst add_server) (snd add_server) ()
         [\<lparr>jsonRPCRequest.ID = JNumber 1, Version = ''2.0'', Method = ''add'',
           Params = Some (JArray [JNumber 2, JNumber 3])\<rparr>] [] [] =
       ([\<lparr>jsonRPCResponse.ID = JNumber 1, Version = ''2.0'', Error = None, Result = Some (JNumber 5)\<rparr>],
        [Call ''add''])"
proof -
  have out: "ServeHTTP Inr (fst add_server) (snd add_server) () (Inr add_then_bogus) [] =
       (Inr (JArray
          [JObject [(''id'', JNumber 1), (''jsonrpc'', JString ''2.0''), (''result'', JNumber 5)],
           JObject [(''id'', JNumber 2), (''jsonrpc'', JString ''2.0''),
                    (''error'', JObject [(''code'', JNumber (- 32601)),
                                         (''message'', JString ''method bogus not found'')])]]),
        [Call ''add''])"
    by (simp add: ServeHTTP_def add_then_bogus_responses ServeHTTP_data_def
        encode_jsonRPCResponses_def encode_jsonRPCResponse_def encode_jsonRPCError_def)
  show ?thesis
    using unknown_method_is_isolated [OF decode_add_then_bogus add_then_bogus_responses]
    by (simp add: decode_add_then_bogus[simplified] add_then_bogus_responses add_server_eval out)
qed

text \<open>The empty body: the decoder returns \<^verbatim>\<open>io.EOF\<close>, and one response is appended.\<close>

theorem ServeHTTP_index_in_range_witness:
  "fst (ServeHTTP Inr (fst add_server) (snd add_server) () (Inl (GoError ''EOF'')) []) \<noteq> Inl IndexOutOfRange
   \<and> \<not> isBatch (fst (ServeHTTP_responses Inr (fst add_server) (snd add_server) () (Inl (GoError ''EOF'')) []))
   \<and> fst (snd (ServeHTTP_responses Inr (fst add_server) (snd add_server) () (Inl (GoError ''EOF'')) [])) =
       [makeErrorResponse JNull jsonRPCParseError ''EOF'']"
  using ServeHTTP_index_in_range [of Inr "fst add_server" "snd add_server" "()" "Inl (GoError ''EOF'')" "[]"]
  by (simp add: ServeHTTP_responses_def)

text \<open>A single request whose method is a number: the parse error is written unwrapped.\<close>

theorem decode_failure_is_one_parse_error_witness:
  "Decode (Inr (JObject [(''method'', JNumber 5)])) \<lparr>requests = [], isBatch = False\<rparr> =
     (Some (UnmarshalTypeError ''string''), \<lparr>requests = [], isBatch = False\<rparr>)
   \<and> ServeHTTP Inr (fst add_server) (snd add_server) () (Inr (JObject [(''method'', JNumber 5)])) [] =
       (Inr (JObject [(''id'', JNull), (''jsonrpc'', JString ''2.0''),
                      (''error'', JObject [(''code'', JNumber (- 32700)),
                         (''message'', JString ''json: cannot unmarshal into Go value of type string'')])]),
        [])"
proof -
  have d: "Decode (Inr (JObject [(''method'', JNumber 5)])) \<lparr>requests = [], isBatch = False\<rparr> =
     (Some (UnmarshalTypeError ''string''), \<lparr>requests = [], isBatch = False\<rparr>)"
    by (simp add: UnmarshalJSON_def zero_jsonRPCRequest_def names_field_simps)
  show ?thesis
    using decode_failure_is_one_parse_error [OF d, of Inr "fst add_server" "snd add_server" "()" "[]"]
    by (simp add: UnmarshalJSON_def zero_jsonRPCRequest_def names_field_simps encode_jsonRPCResponse_def
        makeErrorResponse_def encode_jsonRPCError_def jsonRPCParseError_def UnmarshalTypeError_def
        Version_const_def)
qed

text \<open>
  C8 as stated fails at the body \<^verbatim>\<open>[1]\<close>: it is the text of a JSON array, so
  \<^verbatim>\<open>isBatch\<close> is set before the decoding of the elements fails, and the parse error is
  written inside a one-element array.
\<close>

theorem batch_decode_failure_is_wrapped:
  "fst (Decode (Inr (JArray [JNumber 1])) \<lparr>requests = [], isBatch = False\<rparr>) =
     Some (UnmarshalTypeError ''jsonrpc.jsonRPCRequest'')
   \<and> fst (ServeHTTP Inr (fst add_server) (snd add_server) () (Inr (JArray [JNumber 1])) []) =
       Inr (JArray [JObject [(''id'', JNull), (''jsonrpc'', JString ''2.0''),
                      (''error'', JObject [(''code'', JNumber (- 32700)),
                         (''message'', JString ''json: cannot unmarshal into Go value of type jsonrpc.jsonRPCRequest'')])]])
   \<and> fst (ServeHTTP Inr (fst add_server) (snd add_server) () (Inr (JArray [JNumber 1])) []) \<noteq>
       Inr (JObject [(''id'', JNull), (''jsonrpc'', JString ''2.0''),
                      (''error'', JObject [(''code'', JNumber (- 32700)),
                         (''message'', JString ''json: cannot unmarshal into Go value of type jsonrpc.jsonRPCRequest'')])])"
  by (simp add: ServeHTTP_def ServeHTTP_responses_def ServeHTTP_data_def UnmarshalJSON_def
        encode_jsonRPCResponses_def encode_jsonRPCResponse_def
        makeErrorResponse_def encode_jsonRPCError_def jsonRPCParseError_def UnmarshalTypeError_def
        Version_const_def)

lemma two_methods_m1:
  "methods (snd (fst two_methods)) ''m1'' =
     Some \<lparr>endpoint = observed ''e1'' (\<lambda>ctx request. (request, None)), reqDecode = params_decode,
           method_opts = \<lparr>before = nil_slice, after = nil_slice,
                          middleware = \<lparr>base = 3, len = 4, cap = 4\<rparr>\<rparr>\<rparr>"
  "methods (snd (snd two_methods)) ''m1'' =
     Some \<lparr>endpoint = observed ''e1'' (\<lambda>ctx request. (request, None)), reqDecode = params_decode,
           method_opts = \<lparr>before = nil_slice, after = nil_slice,
                          middleware = \<lparr>base = 3, len = 4, cap = 4\<rparr>\<rparr>\<rparr>"
  "arrays (middleware_arrays (fst (fst two_methods))) 3 =
     [observing ''A'', observing ''B'', observing ''C'', observing ''X'']"
  "arrays (middleware_arrays (fst (snd two_methods))) 3 =
     [observing ''A'', observing ''B'', observing ''C'', observing ''Y'']"
  "before_arrays (fst (fst two_methods)) = empty_heap"
  "after_arrays (fst (fst two_methods)) = empty_heap"
  "before_arrays (fst (snd two_methods)) = empty_heap"
  "after_arrays (fst (snd two_methods)) = empty_heap"
  by (simp_all add: two_methods_def NewServer_def Register_def Let_def append_slice_def nextslicecap_def
      nil_slice_def empty_memory_def empty_heap_def eval_nat_numeral)

section \<open>Registration and shared backing arrays\<close>

text \<open>
  C9, at a server with three server-wide middleware options A, B, C and two methods.
  The third append of \<^verbatim>\<open>NewServer\<close> leaves the server's middleware slice with length 3
  and capacity 4. Each \<^verbatim>\<open>Register\<close> copies that slice header and appends the method's
  middleware in place, into cell 3 of the same backing array. After the first
  registration a call of \<^verbatim>\<open>m1\<close> runs through A, B, C and its own middleware X; after
  the second registration the same call runs through A, B, C and Y, the middleware of
  \<^verbatim>\<open>m2\<close>.
\<close>

theorem registering_m2_changes_chain_of_m1:
  "snd (ServeHTTP Inr (fst (fst two_methods)) (snd (fst two_methods)) () (Inr call_m1) []) =
     [Enter ''A'', Enter ''B'', Enter ''C'', Enter ''X'', Call ''e1'',
      Exit ''X'', Exit ''C'', Exit ''B'', Exit ''A'']
   \<and> snd (ServeHTTP Inr (fst (snd two_methods)) (snd (snd two_methods)) () (Inr call_m1) []) =
     [Enter ''A'', Enter ''B'', Enter ''C'', Enter ''Y'', Call ''e1'',
      Exit ''Y'', Exit ''C'', Exit ''B'', Exit ''A'']"
  by (simp add: ServeHTTP_def ServeHTTP_responses_def decode_call_m1 two_methods_m1 handleMethod_def
      elems_def elems_nil middlewareChain_foldr observing_apply observed_def params_decode_def
      empty_heap_def)

section \<open>The wire ids of a batch\<close>

lemma doRequests_loop_Cons:
  "doRequests_loop c rctx i (request # rest) idx rpc w =
     doRequests_loop (c\<lparr>incrementID := incrementID c + 1\<rparr>)
       (fst (run_client_before (Requester.Before request)
               (case Context request of Some v \<Rightarrow> v | None \<Rightarrow> rctx) w))
       (Suc i) rest (idx(incrementID c + 1 \<mapsto> i))
       (rpc[i := \<lparr>clientReq.ID = incrementID c + 1, Version = ''2.0'',
                  Method = fst (MakeRequest request), Params = snd (MakeRequest request)\<rparr>])
       (snd (run_client_before (Requester.Before request)
               (case Context request of Some v \<Rightarrow> v | None \<Rightarrow> rctx) w))"
  by (simp add: autoIncrementID_def Let_def split: prod.splits)

lemma doRequests_loop_counter:
  "doRequests_loop c rctx i reqs idx rpc w = (c', rctx', idx', rpc', w') \<Longrightarrow>
   incrementID c' = incrementID c + of_nat (length reqs)"
proof (induction reqs arbitrary: c rctx i idx rpc w)
  case Nil
  then show ?case by simp
next
  case (Cons request rest)
  from Cons.prems show ?case
    unfolding doRequests_loop_Cons
    by (auto dest!: Cons.IH)
qed

lemma doRequests_loop_rpcRequests:
  "doRequests_loop c rctx i reqs idx rpc w = (c', rctx', idx', rpc', w') \<Longrightarrow>
   i + length reqs \<le> length rpc \<Longrightarrow>
   length rpc' = length rpc
   \<and> (\<forall>j < length reqs.
          rpc' ! (i + j) =
            \<lparr>clientReq.ID = incrementID c + of_nat (Suc j), Version = ''2.0'',
             Method = fst (MakeRequest (reqs ! j)), Params = snd (MakeRequest (reqs ! j))\<rparr>)
   \<and> (\<forall>m < i. rpc' ! m = rpc ! m)"
proof (induction reqs arbitrary: c rctx i idx rpc w)
  case Nil
  then show ?case by simp
next
  case (Cons request rest)
  let ?r = "\<lparr>clientReq.ID = incrementID c + 1, Version = ''2.0'',
             Method = fst (MakeRequest request), Params = snd (MakeRequest request)\<rparr>"
  from Cons.prems(1)
  have IH: "length rpc' = length (rpc[i := ?r])
     \<and> (\<forall>j < length rest.
          rpc' ! (Suc i + j) =
            \<lparr>clientReq.ID = incrementID c + 1 + of_nat (Suc j), Version = ''2.0'',
             Method = fst (MakeRequest (rest ! j)), Params = snd (MakeRequest (rest ! j))\<rparr>)
     \<and> (\<forall>m < Suc i. rpc' ! m = rpc[i := ?r] ! m)"
    unfolding doRequests_loop_Cons
    using Cons.prems(2) by (auto dest!: Cons.IH)
  have here: "rpc' ! i = ?r"
    using IH Cons.prems(2) by simp
  have below: "\<forall>m < i. rpc' ! m = rpc ! m"
    using IH by simp
  have at: "rpc' ! (i + j) =
            \<lparr>clientReq.ID = incrementID c + of_nat (Suc j), Version = ''2.0'',
             Method = fst (MakeRequest ((request # rest) ! j)),
             Params = snd (MakeRequest ((request # rest) ! j))\<rparr>"
    if "j < length (request # rest)" for j
  proof (cases j)
    case 0
    with here show ?thesis by simp
  next
    case (Suc k)
    with that have k: "k < length rest" by simp
    with IH have "rpc' ! (Suc i + k) =
            \<lparr>clientReq.ID = incrementID c + 1 + of_nat (Suc k), Version = ''2.0'',
             Method = fst (MakeRequest (rest ! k)), Params = snd (MakeRequest (rest ! k))\<rparr>"
      by blast
    with Suc show ?thesis by (simp add: ac_simps)
  qed
  from IH at below show ?case by simp
qed

lemma word64_of_nat_Suc_neq_0:
  "j < 2 ^ 64 - 1 \<Longrightarrow> (of_nat (Suc j) :: 64 word) \<noteq> 0"
  by (rule of_nat_neq_0) simp_all

lemma doRequests_loop_idsIndex:
  "doRequests_loop c rctx i reqs idx rpc w = (c', rctx', idx', rpc', w') \<Longrightarrow>
   length reqs < 2 ^ 64 \<Longrightarrow>
   (\<forall>j < length reqs. idx' (incrementID c + of_nat (Suc j)) = Some (i + j))
   \<and> (\<forall>n. (\<forall>j < length reqs. n \<noteq> incrementID c + of_nat (Suc j)) \<longrightarrow> idx' n = idx n)"
proof (induction reqs arbitrary: c rctx i idx rpc w)
  case Nil
  then show ?case by simp
next
  case (Cons request rest)
  from Cons.prems
  have IH: "(\<forall>j < length rest. idx' (incrementID c + 1 + of_nat (Suc j)) = Some (Suc i + j))
     \<and> (\<forall>n. (\<forall>j < length rest. n \<noteq> incrementID c + 1 + of_nat (Suc j)) \<longrightarrow>
            idx' n = (idx(incrementID c + 1 \<mapsto> i)) n)"
    unfolding doRequests_loop_Cons
    by (auto dest!: Cons.IH)
  have first: "idx' (incrementID c + 1) = Some i"
  proof -
    have "incrementID c + 1 \<noteq> incrementID c + 1 + of_nat (Suc j)" if "j < length rest" for j
    proof -
      have "j < 2 ^ 64 - 1" using that Cons.prems(2) by simp
      then have "(of_nat (Suc j) :: 64 word) \<noteq> 0" by (rule word64_of_nat_Suc_neq_0)
      then show ?thesis by simp
    qed
    with IH show ?thesis by simp
  qed
  have hit: "idx' (incrementID c + of_nat (Suc j)) = Some (i + j)"
    if "j < length (request # rest)" for j
  proof (cases j)
    case 0
    with first show ?thesis by simp
  next
    case (Suc k)
    with that have k: "k < length rest" by simp
    with IH have "idx' (incrementID c + 1 + of_nat (Suc k)) = Some (Suc i + k)"
      by blast
    with Suc show ?thesis by (simp add: ac_simps)
  qed
  have miss: "idx' n = idx n"
    if "\<forall>j < length (request # rest). n \<noteq> incrementID c + of_nat (Suc j)" for n
  proof -
    from that have n0: "n \<noteq> incrementID c + 1" by (auto dest: spec [of _ 0])
    have "n \<noteq> incrementID c + 1 + of_nat (Suc j)" if j: "j < length rest" for j
      using \<open>\<forall>j < length (request # rest). n \<noteq> incrementID c + of_nat (Suc j)\<close> j
      by (auto dest!: spec [of _ "Suc j"] simp: ac_simps)
    with IH n0 show ?thesis by simp
  qed
  from hit miss show ?case by blast
qed

lemma word64_of_nat_Suc_inj:
  assumes "i < n" "j < n" "n < 2 ^ 64" "(of_nat (Suc i) :: 64 word) = of_nat (Suc j)"
  shows "i = j"
proof -
  have "take_bit 64 (Suc i) = take_bit 64 (Suc j)"
    using assms(4) by (simp only: word_of_nat_eq_iff) simp
  moreover have "Suc i < 2 ^ 64" "Suc j < 2 ^ 64" using assms by simp_all
  ultimately show ?thesis by (simp add: take_bit_nat_eq_self)
qed

lemma doRequests_build_table:
  assumes "length reqs < 2 ^ 64"
    and "doRequests_build c ctx reqs w = (c', rctx, idsIndex, rpcRequests, w')"
  shows "length rpcRequests = length reqs"
    and "\<And>i. i < length reqs \<Longrightarrow>
           rpcRequests ! i =
             \<lparr>clientReq.ID = of_nat (Suc i), Version = ''2.0'',
              Method = fst (MakeRequest (reqs ! i)), Params = snd (MakeRequest (reqs ! i))\<rparr>"
    and "\<And>i. i < length reqs \<Longrightarrow> idsIndex (of_nat (Suc i)) = Some i"
    and "dom idsIndex = (\<lambda>i. of_nat (Suc i)) ` {..<length reqs}"
    and "incrementID c' = of_nat (length reqs)"
proof -
  obtain rctx0 w0 where rb: "run_client_before (clientOptions.before (Client.opts c)) ctx w = (rctx0, w0)"
    by (cases "run_client_before (clientOptions.before (Client.opts c)) ctx w")
  with assms(2) have loop:
    "doRequests_loop (c\<lparr>incrementID := 0\<rparr>) rctx0 0 reqs Map.empty
       (replicate (length reqs) zero_clientReq) w0 = (c', rctx, idsIndex, rpcRequests, w')"
    by (simp add: doRequests_build_def)
  from doRequests_loop_rpcRequests [OF loop]
  have rpc: "length rpcRequests = length reqs"
    "\<forall>j < length reqs. rpcRequests ! (0 + j) =
       \<lparr>clientReq.ID = incrementID (c\<lparr>incrementID := 0\<rparr>) + of_nat (Suc j), Version = ''2.0'',
        Method = fst (MakeRequest (reqs ! j)), Params = snd (MakeRequest (reqs ! j))\<rparr>"
    by simp_all
  from doRequests_loop_idsIndex [OF loop assms(1)]
  have idx: "\<forall>j < length reqs. idsIndex (incrementID (c\<lparr>incrementID := 0\<rparr>) + of_nat (Suc j)) = Some (0 + j)"
    "\<forall>n. (\<forall>j < length reqs. n \<noteq> incrementID (c\<lparr>incrementID := 0\<rparr>) + of_nat (Suc j)) \<longrightarrow>
        idsIndex n = Map.empty n"
    by simp_all
  show "length rpcRequests = length reqs" by (rule rpc(1))
  show "rpcRequests ! i =
             \<lparr>clientReq.ID = of_nat (Suc i), Version = ''2.0'',
              Method = fst (MakeRequest (reqs ! i)), Params = snd (MakeRequest (reqs ! i))\<rparr>"
    if "i < length reqs" for i
    using rpc(2) that by simp
  show hit: "idsIndex (of_nat (Suc i)) = Some i" if "i < length reqs" for i
    using idx(1) that by simp
  show "dom idsIndex = (\<lambda>i. of_nat (Suc i)) ` {..<length reqs}"
  proof (rule set_eqI)
    fix n
    show "n \<in> dom idsIndex \<longleftrightarrow> n \<in> (\<lambda>i. of_nat (Suc i)) ` {..<length reqs}"
    proof
      assume "n \<in> dom idsIndex"
      then have "idsIndex n \<noteq> None" by auto
      with idx(2) have "\<not> (\<forall>j < length reqs. n \<noteq> of_nat (Suc j))" by auto
      then show "n \<in> (\<lambda>i. of_nat (Suc i)) ` {..<length reqs}" by auto
    next
      assume "n \<in> (\<lambda>i. of_nat (Suc i)) ` {..<length reqs}"
      then obtain i where "i < length reqs" "n = of_nat (Suc i)" by auto
      with hit show "n \<in> dom idsIndex" by auto
    qed
  qed
  show "incrementID c' = of_nat (length reqs)"
    using doRequests_loop_counter [OF loop] by simp
qed

text \<open>
  C5, as amended. Whatever the counter of the client was before the call, a batch of
  fewer than \<open>2 ^ 64\<close> requests gets the wire ids 1, 2, ..., N in the order of the
  requests: the counter is reset to 0 and each id is the value of the counter after
  its increment. The wire request at position \<open>i\<close> carries the method and parameters
  of request \<open>i\<close> and the id \<open>i + 1\<close>; the correlation table maps that id to \<open>i\<close>
  and has no other keys; the ids are distinct; the counter ends at N.
\<close>

theorem wire_ids_sequential_from_one:
  assumes "length reqs < 2 ^ 64"
    and "doRequests_build c ctx reqs w = (c', rctx, idsIndex, rpcRequests, w')"
  shows "length rpcRequests = length reqs
    \<and> (\<forall>i < length reqs.
          rpcRequests ! i =
            \<lparr>clientReq.ID = of_nat (Suc i), Version = ''2.0'',
             Method = fst (MakeRequest (reqs ! i)), Params = snd (MakeRequest (reqs ! i))\<rparr>
          \<and> idsIndex (of_nat (Suc i)) = Some i)
    \<and> dom idsIndex = clientReq.ID ` set rpcRequests
    \<and> distinct (map clientReq.ID rpcRequests)
    \<and> incrementID c' = of_nat (length reqs)"
proof -
  note t = doRequests_build_table [OF assms]
  have ids: "map clientReq.ID rpcRequests = map (\<lambda>i. of_nat (Suc i)) [0..<length reqs]"
    by (rule nth_equalityI) (simp_all add: t(1) t(2))
  have inj: "inj_on (\<lambda>i. of_nat (Suc i) :: 64 word) (set [0..<length reqs])"
  proof (rule inj_onI)
    fix i j
    assume "i \<in> set [0..<length reqs]" "j \<in> set [0..<length reqs]"
      and "(of_nat (Suc i) :: 64 word) = of_nat (Suc j)"
    then show "i = j"
      using word64_of_nat_Suc_inj [of i "length reqs" j] assms(1) by simp
  qed
  have "distinct (map clientReq.ID rpcRequests)"
    unfolding ids distinct_map using inj by simp
  moreover have "clientReq.ID ` set rpcRequests = (\<lambda>i. of_nat (Suc i)) ` {..<length reqs}"
  proof -
    have "clientReq.ID ` set rpcRequests = set (map clientReq.ID rpcRequests)" by simp
    also have "\<dots> = (\<lambda>i. of_nat (Suc i)) ` set [0..<length reqs]" unfolding ids by simp
    finally show ?thesis by (simp add: lessThan_atLeast0)
  qed
  ultimately show ?thesis
    using t by simp
qed

lemma ExecuteWithContext_loop_error:
  assumes "clientResp.Error r = Some e" "idx (clientResp.ID r) = Some i" "i < length (results br)"
  shows "ExecuteWithContext_loop c reqs idx rctx (r # rs) br w =
           ExecuteWithContext_loop c reqs idx rctx rs
             (br\<lparr>results := (results br)
                [i := AnyError \<lparr>code = clientError.Code e, message = clientError.Message e,
                                 data = clientError.Data e\<rparr>]\<rparr>) w"
  using assms by simp

lemma ExecuteWithContext_loop_value:
  assumes "clientResp.Error r = None" "idx (clientResp.ID r) = Some i"
    and "i < length reqs" "i < length (results br)"
  shows "ExecuteWithContext_loop c reqs idx rctx (r # rs) br w =
           (case MakeResult (reqs ! i) (clientResp.Result r) of
              Inl err \<Rightarrow>
                (Fails err,
                 run_client_after (Requester.After (reqs ! i)) rctx (clientResp.Result r)
                   (run_client_after (clientOptions.after (Client.opts c)) rctx (clientResp.Result r) w))
            | Inr v \<Rightarrow>
                ExecuteWithContext_loop c reqs idx rctx rs
                  (br\<lparr>results := (results br)[i := AnyValue v]\<rparr>)
                  (run_client_after (Requester.After (reqs ! i)) rctx (clientResp.Result r)
                     (run_client_after (clientOptions.after (Client.opts c)) rctx (clientResp.Result r) w)))"
  using assms by (simp add: Let_def split: sum.splits)

lemma ExecuteWithContext_loop_returns:
  assumes "ExecuteWithContext_loop c reqs idx rctx rs br w = (Returns br', w')"
    and "length (results br) = length reqs"
    and "\<forall>r \<in> set rs. \<exists>i < length reqs. idx (clientResp.ID r) = Some i"
    and "distinct (map (\<lambda>r. idx (clientResp.ID r)) rs)"
  shows "length (results br') = length reqs
    \<and> (\<forall>r \<in> set rs. \<forall>i. idx (clientResp.ID r) = Some i \<longrightarrow>
          (\<forall>e. clientResp.Error r = Some e \<longrightarrow>
             results br' ! i = AnyError \<lparr>code = clientError.Code e, message = clientError.Message e,
                                          data = clientError.Data e\<rparr>)
          \<and> (clientResp.Error r = None \<longrightarrow>
               (\<exists>v. MakeResult (reqs ! i) (clientResp.Result r) = Inr v \<and> results br' ! i = AnyValue v)))
    \<and> (\<forall>i < length reqs. (\<forall>r \<in> set rs. idx (clientResp.ID r) \<noteq> Some i) \<longrightarrow>
          results br' ! i = results br ! i)"
  using assms
proof (induction rs arbitrary: br w)
  case Nil
  then show ?case by simp
next
  case (Cons r rs)
  from Cons.prems(3) obtain i where i: "i < length reqs" "idx (clientResp.ID r) = Some i"
    by auto
  from Cons.prems(4) have fresh: "\<forall>r' \<in> set rs. idx (clientResp.ID r') \<noteq> Some i"
    and dist: "distinct (map (\<lambda>r. idx (clientResp.ID r)) rs)"
    using i(2) by (auto simp: image_iff)
  from Cons.prems(3) have known: "\<forall>r \<in> set rs. \<exists>i < length reqs. idx (clientResp.ID r) = Some i"
    by simp
  have ib: "i < length (results br)" using i(1) Cons.prems(2) by simp
  show ?case
  proof (cases "clientResp.Error r")
    case (Some e)
    let ?x = "AnyError \<lparr>code = clientError.Code e, message = clientError.Message e,
                        data = clientError.Data e\<rparr>"
    let ?br = "br\<lparr>results := (results br)[i := ?x]\<rparr>"
    from Cons.prems(1) have run: "ExecuteWithContext_loop c reqs idx rctx rs ?br w = (Returns br', w')"
      by (simp only: ExecuteWithContext_loop_error [where idx = idx and r = r, OF Some i(2) ib])
    have len: "length (results ?br) = length reqs" using Cons.prems(2) by simp
    note IH = Cons.IH [OF run len known dist]
    from IH fresh i(1) have "results br' ! i = results ?br ! i" by blast
    with ib have here: "results br' ! i = ?x" by simp
    have rest: "results br' ! j = results br ! j"
      if "j < length reqs" "\<forall>r' \<in> set (r # rs). idx (clientResp.ID r') \<noteq> Some j" for j
    proof -
      from that i(2) have "j \<noteq> i" by auto
      moreover from IH that have "results br' ! j = results ?br ! j" by simp
      ultimately show ?thesis by simp
    qed
    from IH here rest Some i(2) show ?thesis by auto
  next
    case None
    let ?w = "run_client_after (Requester.After (reqs ! i)) rctx (clientResp.Result r)
                (run_client_after (clientOptions.after (Client.opts c)) rctx (clientResp.Result r) w)"
    have "\<exists>v. MakeResult (reqs ! i) (clientResp.Result r) = Inr v"
    proof (cases "MakeResult (reqs ! i) (clientResp.Result r)")
      case (Inl err)
      with Cons.prems(1) show ?thesis
        by (simp add: ExecuteWithContext_loop_value [where idx = idx and r = r, OF None i(2) i(1) ib]
            del: ExecuteWithContext_loop.simps(2))
    next
      case (Inr v)
      then show ?thesis by simp
    qed
    then obtain v where v: "MakeResult (reqs ! i) (clientResp.Result r) = Inr v" ..
    let ?br = "br\<lparr>results := (results br)[i := AnyValue v]\<rparr>"
    from Cons.prems(1) v have run: "ExecuteWithContext_loop c reqs idx rctx rs ?br ?w = (Returns br', w')"
      by (simp only: ExecuteWithContext_loop_value [where idx = idx and r = r, OF None i(2) i(1) ib] sum.case)
    have len: "length (results ?br) = length reqs" using Cons.prems(2) by simp
    note IH = Cons.IH [OF run len known dist]
    from IH fresh i(1) have "results br' ! i = results ?br ! i" by blast
    with ib have here: "results br' ! i = AnyValue v" by simp
    have rest: "results br' ! j = results br ! j"
      if "j < length reqs" "\<forall>r' \<in> set (r # rs). idx (clientResp.ID r') \<noteq> Some j" for j
    proof -
      from that i(2) have "j \<noteq> i" by auto
      moreover from IH that have "results br' ! j = results ?br ! j" by simp
      ultimately show ?thesis by simp
    qed
    from IH here rest None i(2) v show ?thesis by auto
  qed
qed

lemma doRequests_Returns:
  assumes "doRequests nr jm c ctx reqs w = (c1, Returns (data', idsIndex, resp, rctx), w1)"
  shows "\<exists>rpc w0. doRequests_build c ctx reqs w = (c1, rctx, idsIndex, rpc, w0)"
  using assms
  by (auto simp: doRequests_def split: option.splits prod.splits sum.splits if_splits)

lemma ExecuteWithContext_Returns:
  assumes "doRequests nr jm c ctx reqs w = (c1, Returns (data', idsIndex, resp, rctx), w1)"
    and "unmarshal_clientResps data' = Inr responses"
  shows "ExecuteWithContext nr jm c ctx reqs w =
           (c1, ExecuteWithContext_loop c1 reqs idsIndex rctx responses
                  \<lparr>results = replicate (length reqs) AnyNil\<rparr> w1)"
  using assms by (simp add: ExecuteWithContext_def split: prod.splits)

section \<open>Correlation of responses\<close>

text \<open>
  C1. Let a batch of fewer than \<open>2 ^ 64\<close> requests be submitted, let the transport
  succeed and the body decode to the response envelopes \<open>responses\<close>, carrying exactly
  the ids of the correlation table, each once, in any order. If the call returns a
  batch result, its length is the number of requests, and for every position \<open>i\<close>
  the entry at \<open>i\<close> comes from the envelope with the id \<open>i + 1\<close> given to request
  \<open>i\<close>: the error of that envelope, or else what \<^verbatim>\<open>MakeResult\<close> of request \<open>i\<close> makes
  of its result.
\<close>

theorem batch_result_in_submission_order:
  assumes "length reqs < 2 ^ 64"
    and "doRequests nr jm c ctx reqs w = (c1, Returns (data', idsIndex, resp, rctx), w1)"
    and "unmarshal_clientResps data' = Inr responses"
    and "distinct (map clientResp.ID responses)"
    and "set (map clientResp.ID responses) = dom idsIndex"
    and "ExecuteWithContext nr jm c ctx reqs w = (c2, Returns br, w2)"
  shows "BatchResult_Len br = int (length reqs)
    \<and> (\<forall>i < length reqs.
          idsIndex (of_nat (Suc i)) = Some i
          \<and> (\<exists>r \<in> set responses.
                clientResp.ID r = of_nat (Suc i)
                \<and> (\<forall>e. clientResp.Error r = Some e \<longrightarrow>
                      results br ! i =
                        AnyError \<lparr>code = clientError.Code e, message = clientError.Message e,
                                   data = clientError.Data e\<rparr>)
                \<and> (clientResp.Error r = None \<longrightarrow>
                      (\<exists>v. MakeResult (reqs ! i) (clientResp.Result r) = Inr v
                           \<and> results br ! i = AnyValue v))))"
proof -
  from doRequests_Returns [OF assms(2)] obtain rpc w0
    where build: "doRequests_build c ctx reqs w = (c1, rctx, idsIndex, rpc, w0)" by blast
  note t = doRequests_build_table [OF assms(1) build]
  have known: "\<forall>r \<in> set responses. \<exists>i < length reqs. idsIndex (clientResp.ID r) = Some i"
  proof
    fix r assume "r \<in> set responses"
    then have "clientResp.ID r \<in> dom idsIndex" using assms(5) by auto
    then obtain i where "i < length reqs" "clientResp.ID r = of_nat (Suc i)"
      unfolding t(4) by auto
    with t(3) show "\<exists>i < length reqs. idsIndex (clientResp.ID r) = Some i" by auto
  qed
  have inj: "inj_on idsIndex (dom idsIndex)"
  proof (rule inj_onI)
    fix a b assume "a \<in> dom idsIndex" "b \<in> dom idsIndex" "idsIndex a = idsIndex b"
    then obtain i j where ij: "i < length reqs" "a = of_nat (Suc i)" "j < length reqs" "b = of_nat (Suc j)"
      unfolding t(4) by auto
    with t(3) \<open>idsIndex a = idsIndex b\<close> have "i = j" by simp
    with ij show "a = b" by simp
  qed
  have dist: "distinct (map (\<lambda>r. idsIndex (clientResp.ID r)) responses)"
  proof -
    have "inj_on idsIndex (set (map clientResp.ID responses))"
      using inj assms(5) by simp
    with assms(4) have "distinct (map idsIndex (map clientResp.ID responses))"
      by (simp only: distinct_map)
    then show ?thesis by (simp add: comp_def)
  qed
  from assms(6) have run:
    "ExecuteWithContext_loop c1 reqs idsIndex rctx responses
       \<lparr>results = replicate (length reqs) AnyNil\<rparr> w1 = (Returns br, w2)"
    by (auto simp: ExecuteWithContext_Returns [OF assms(2) assms(3)])
  have len0: "length (results \<lparr>results = replicate (length reqs) (AnyNil :: 'e any)\<rparr>) = length reqs"
    by simp
  note L = ExecuteWithContext_loop_returns [OF run len0 known dist]
  have slot: "\<exists>r \<in> set responses.
                clientResp.ID r = of_nat (Suc i)
                \<and> (\<forall>e. clientResp.Error r = Some e \<longrightarrow>
                      results br ! i =
                        AnyError \<lparr>code = clientError.Code e, message = clientError.Message e,
                                   data = clientError.Data e\<rparr>)
                \<and> (clientResp.Error r = None \<longrightarrow>
                      (\<exists>v. MakeResult (reqs ! i) (clientResp.Result r) = Inr v
                           \<and> results br ! i = AnyValue v))"
    if i: "i < length reqs" for i
  proof -
    have "of_nat (Suc i) \<in> dom idsIndex" unfolding t(4) using i by auto
    then have "of_nat (Suc i) \<in> set (map clientResp.ID responses)" using assms(5) by simp
    then obtain r where r: "r \<in> set responses" "clientResp.ID r = of_nat (Suc i)" by auto
    then have "idsIndex (clientResp.ID r) = Some i" using t(3) [OF i] by simp
    with L r(1) have
      "(\<forall>e. clientResp.Error r = Some e \<longrightarrow>
           results br ! i = AnyError \<lparr>code = clientError.Code e, message = clientError.Message e,
                                        data = clientError.Data e\<rparr>)
       \<and> (clientResp.Error r = None \<longrightarrow>
            (\<exists>v. MakeResult (reqs ! i) (clientResp.Result r) = Inr v \<and> results br ! i = AnyValue v))"
      by blast
    with r show ?thesis by (intro bexI [where x = r]) simp_all
  qed
  from L have "length (results br) = length reqs" by simp
  with slot t(3) show ?thesis by (simp add: BatchResult_Len_def)
qed

lemma names_field_client:
  "names_field ''id'' ''id''" "\<not> names_field ''jsonrpc'' ''id''" "names_field ''jsonrpc'' ''jsonrpc''"
  "\<not> names_field ''result'' ''id''" "\<not> names_field ''result'' ''jsonrpc''"
  "\<not> names_field ''result'' ''error''" "names_field ''result'' ''result''"
  "\<not> names_field ''error'' ''id''" "\<not> names_field ''error'' ''jsonrpc''" "names_field ''error'' ''error''"
  "names_field ''code'' ''code''" "\<not> names_field ''message'' ''code''" "names_field ''message'' ''message''"
  "\<not> names_field ''data'' ''code''" "\<not> names_field ''data'' ''message''" "names_field ''data'' ''data''"
  by (simp_all add: names_field_def toLower_def)

lemma unmarshal_result_envelope:
  "0 \<le> n \<Longrightarrow> n < 2 ^ 64 \<Longrightarrow>
   unmarshal_clientResp (result_envelope n j) =
     Inr \<lparr>clientResp.ID = word_of_int n, Version = ''2.0'', Error = None, Result = Some j\<rparr>"
  by (simp add: result_envelope_def zero_clientResp_def names_field_client)

lemma two_echo_doRequests:
  "doRequests (\<lambda>t. None) Inr (canned_client d) () [echo_request ''a'' (JString ''x''), echo_request ''b'' (JString ''y'')] [] =
     (canned_client d\<lparr>incrementID := 2\<rparr>,
      Returns (d, [1 \<mapsto> 0, 2 \<mapsto> 1], \<lparr>StatusCode = 200, Status = ''200 OK'', Body = Inr (100, d)\<rparr>, ()),
      [Call ''POST''])"
  by (simp add: doRequests_def doRequests_build_def canned_client_def echo_request_def
      autoIncrementID_def encode_clientReqs_def encode_clientReq_def zero_clientReq_def Let_def)

lemma unmarshal_swapped_results:
  "unmarshal_clientResps swapped_results =
     Inr [\<lparr>clientResp.ID = 2, Version = ''2.0'', Error = None, Result = Some (JString ''second'')\<rparr>,
          \<lparr>clientResp.ID = 1, Version = ''2.0'', Error = None, Result = Some (JString ''first'')\<rparr>]"
  by (simp add: swapped_results_def unmarshal_result_envelope)

lemma unmarshal_stranger_results:
  "unmarshal_clientResps stranger_results =
     Inr [\<lparr>clientResp.ID = 1, Version = ''2.0'', Error = None, Result = Some (JString ''first'')\<rparr>,
          \<lparr>clientResp.ID = 2, Version = ''2.0'', Error = None, Result = Some (JString ''second'')\<rparr>,
          \<lparr>clientResp.ID = 99, Version = ''2.0'', Error = None, Result = Some (JString ''stranger'')\<rparr>]"
  by (simp add: stranger_results_def unmarshal_result_envelope)

lemma two_echo_doRequests':
  "doRequests (\<lambda>t. None) Inr (canned_client d) () two_echo [] =
     (canned_client d\<lparr>incrementID := 2\<rparr>,
      Returns (d, [1 \<mapsto> 0, 2 \<mapsto> 1], \<lparr>StatusCode = 200, Status = ''200 OK'', Body = Inr (100, d)\<rparr>, ()),
      [Call ''POST''])"
  unfolding two_echo_def by (rule two_echo_doRequests)

lemma two_echo_Execute_swapped:
  "ExecuteWithContext (\<lambda>t. None) Inr (canned_client swapped_results) () two_echo [] =
     (canned_client swapped_results\<lparr>incrementID := 2\<rparr>,
      Returns \<lparr>results = [AnyValue (JString ''first''), AnyValue (JString ''second'')]\<rparr>,
      [Call ''POST''])"
  unfolding ExecuteWithContext_Returns [OF two_echo_doRequests' unmarshal_swapped_results]
  by (simp add: two_echo_def echo_request_def canned_client_def)

text \<open>Two requests answered in reverse order: the results are in the order of the requests.\<close>

theorem batch_result_in_submission_order_witness:
  "unmarshal_clientResps swapped_results =
     Inr [\<lparr>clientResp.ID = 2, Version = ''2.0'', Error = None, Result = Some (JString ''second'')\<rparr>,
          \<lparr>clientResp.ID = 1, Version = ''2.0'', Error = None, Result = Some (JString ''first'')\<rparr>]
   \<and> ExecuteWithContext (\<lambda>t. None) Inr (canned_client swapped_results) () two_echo [] =
     (canned_client swapped_results\<lparr>incrementID := 2\<rparr>,
      Returns \<lparr>results = [AnyValue (JString ''first''), AnyValue (JString ''second'')]\<rparr>,
      [Call ''POST''])
   \<and> BatchResult_Len \<lparr>results = [AnyValue (JString ''first''), AnyValue (JString ''second'')]\<rparr> = 2"
proof -
  have h1: "length two_echo < 2 ^ 64" by (simp add: two_echo_def)
  have h2: "doRequests (\<lambda>t. None) Inr (canned_client swapped_results) () two_echo [] =
     (canned_client swapped_results\<lparr>incrementID := 2\<rparr>,
      Returns (swapped_results, [1 \<mapsto> 0, 2 \<mapsto> 1],
               \<lparr>StatusCode = 200, Status = ''200 OK'', Body = Inr (100, swapped_results)\<rparr>, ()),
      [Call ''POST''])"
    by (rule two_echo_doRequests')
  have h4: "distinct (map clientResp.ID
     [\<lparr>clientResp.ID = 2, Version = ''2.0'', Error = None, Result = Some (JString ''second'')\<rparr>,
      \<lparr>clientResp.ID = 1, Version = ''2.0'', Error = None, Result = Some (JString ''first'')\<rparr>])"
    by simp
  have h5: "set (map clientResp.ID
     [\<lparr>clientResp.ID = 2, Version = ''2.0'', Error = None, Result = Some (JString ''second'')\<rparr>,
      \<lparr>clientResp.ID = 1, Version = ''2.0'', Error = None, Result = Some (JString ''first'')\<rparr>])
      = dom [(1 :: uint64) \<mapsto> (0 :: nat), 2 \<mapsto> 1]"
    by auto
  show ?thesis
    using batch_result_in_submission_order
            [OF h1 h2 unmarshal_swapped_results h4 h5 two_echo_Execute_swapped]
    by (simp add: unmarshal_swapped_results two_echo_Execute_swapped BatchResult_Len_def)
qed

text \<open>Two requests on a client whose counter was 7: the ids are 1 and 2.\<close>

theorem wire_ids_sequential_from_one_witness:
  "length two_echo < 2 ^ 64
   \<and> doRequests_build (canned_client swapped_results) () two_echo [] =
       (canned_client swapped_results\<lparr>incrementID := 2\<rparr>, (), [1 \<mapsto> 0, 2 \<mapsto> 1],
        [\<lparr>clientReq.ID = 1, Version = ''2.0'', Method = ''a'', Params = Some (JString ''x'')\<rparr>,
         \<lparr>clientReq.ID = 2, Version = ''2.0'', Method = ''b'', Params = Some (JString ''y'')\<rparr>],
        [])
   \<and> incrementID (canned_client swapped_results) = 7"
proof -
  have h1: "length two_echo < 2 ^ 64" by (simp add: two_echo_def)
  have h2: "doRequests_build (canned_client swapped_results) () two_echo [] =
       (canned_client swapped_results\<lparr>incrementID := 2\<rparr>, (), [1 \<mapsto> 0, 2 \<mapsto> 1],
        [\<lparr>clientReq.ID = 1, Version = ''2.0'', Method = ''a'', Params = Some (JString ''x'')\<rparr>,
         \<lparr>clientReq.ID = 2, Version = ''2.0'', Method = ''b'', Params = Some (JString ''y'')\<rparr>],
        [])"
    by (simp add: doRequests_build_def two_echo_def canned_client_def echo_request_def
        autoIncrementID_def zero_clientReq_def Let_def)
  show ?thesis
    using wire_ids_sequential_from_one [OF h1 h2] h1 h2
    by (simp add: canned_client_def)
qed

text \<open>
  C5 as stated fails at a batch of one request: its wire id is 1, not 0, since
  \<^verbatim>\<open>atomic.AddUint64\<close> returns the incremented value.
\<close>

theorem first_wire_id_is_one:
  "map clientReq.ID
     (fst (snd (snd (snd (doRequests_build (canned_client swapped_results) ()
                            [echo_request ''a'' (JString ''x'')] []))))) = [1]
   \<and> map clientReq.ID
     (fst (snd (snd (snd (doRequests_build (canned_client swapped_results) ()
                            [echo_request ''a'' (JString ''x'')] []))))) \<noteq> [0]"
  by (simp add: doRequests_build_def canned_client_def echo_request_def
        autoIncrementID_def zero_clientReq_def Let_def)

section \<open>Responses with an id the batch did not assign\<close>

text \<open>
  C3, at a batch of two requests answered by three envelopes with the ids 1, 2 and 99.
  The lookup \<^verbatim>\<open>idsIndex[response.ID]\<close> of the unknown id yields 0, so the third envelope
  is treated as the answer to request 0: its result replaces the result of the first
  envelope in slot 0.
\<close>

theorem unknown_id_overwrites_slot_0:
  "ExecuteWithContext (\<lambda>t. None) Inr (canned_client stranger_results) () two_echo [] =
     (canned_client stranger_results\<lparr>incrementID := 2\<rparr>,
      Returns \<lparr>results = [AnyValue (JString ''stranger''), AnyValue (JString ''second'')]\<rparr>,
      [Call ''POST''])"
  unfolding ExecuteWithContext_Returns [OF two_echo_doRequests' unmarshal_stranger_results]
  by (simp add: two_echo_def echo_request_def canned_client_def)

section \<open>Round trip of an error\<close>

lemma sint64_range:
  "- 9223372036854775808 \<le> sint (c :: go_int)" "sint (c :: go_int) < 9223372036854775808"
  using sint_ge [of c] sint_lt [of c] by simp_all

lemma unmarshal_encoded_error:
  "unmarshal_clientError_ptr None (encode_jsonRPCError e) =
     Inr (Some \<lparr>clientError.Code = Code e, Message = Message e, Data = Data e\<rparr>)"
  by (cases "Data e = JNull")
     (simp_all add: encode_jsonRPCError_def names_field_client sint64_range zero_clientError_def)

lemma unmarshal_encoded_response:
  assumes "jsonRPCResponse.ID r = JNumber n" "0 \<le> n" "n < 2 ^ 64"
  shows "unmarshal_clientResp (encode_jsonRPCResponse r) = Inr (client_view r)"
  using assms
  by (cases "Error r"; cases "Result r")
     (simp_all add: encode_jsonRPCResponse_def client_view_def names_field_client zero_clientResp_def
        unmarshal_encoded_error)

lemma unmarshal_encoded_elements:
  assumes "\<forall>r \<in> set rs. \<exists>n. jsonRPCResponse.ID r = JNumber n \<and> 0 \<le> n \<and> n < 2 ^ 64"
  shows "unmarshal_clientResp_elements (map encode_jsonRPCResponse rs) = Inr (map client_view rs)"
  using assms
proof (induction rs)
  case Nil
  show ?case by simp
next
  case (Cons r rs)
  from Cons.prems obtain n where "jsonRPCResponse.ID r = JNumber n" "0 \<le> n" "n < 2 ^ 64"
    by auto
  then have "unmarshal_clientResp (encode_jsonRPCResponse r) = Inr (client_view r)"
    by (rule unmarshal_encoded_response)
  moreover have "unmarshal_clientResp_elements (map encode_jsonRPCResponse rs) = Inr (map client_view rs)"
    using Cons by simp
  ultimately show ?case by simp
qed

lemma unmarshal_encoded_responses:
  assumes "\<forall>r \<in> set rs. \<exists>n. jsonRPCResponse.ID r = JNumber n \<and> 0 \<le> n \<and> n < 2 ^ 64"
  shows "unmarshal_clientResps (Inr (encode_jsonRPCResponses rs)) = Inr (map client_view rs)"
  using unmarshal_encoded_elements [OF assms]
  by (simp add: encode_jsonRPCResponses_def)

lemma ExecuteWithContext_loop_outcome:
  assumes "length (results br) = length reqs"
    and "\<forall>r \<in> set rs. \<exists>i < length reqs. idx (clientResp.ID r) = Some i"
  shows "case fst (ExecuteWithContext_loop c reqs idx rctx rs br w) of
           Panics p \<Rightarrow> False
         | Fails err \<Rightarrow>
             (\<exists>r \<in> set rs. \<exists>i < length reqs. clientResp.Error r = None \<and> idx (clientResp.ID r) = Some i
                \<and> MakeResult (reqs ! i) (clientResp.Result r) = Inl err)
         | Returns br' \<Rightarrow> True"
  using assms
proof (induction rs arbitrary: br w)
  case Nil
  show ?case by simp
next
  case (Cons r rs)
  from Cons.prems(2) obtain i where i: "i < length reqs" "idx (clientResp.ID r) = Some i"
    by auto
  from Cons.prems(2) have known: "\<forall>r \<in> set rs. \<exists>i < length reqs. idx (clientResp.ID r) = Some i"
    by simp
  have ib: "i < length (results br)" using i(1) Cons.prems(1) by simp
  show ?case
  proof (cases "clientResp.Error r")
    case (Some e)
    let ?br = "br\<lparr>results := (results br)
                [i := AnyError \<lparr>code = clientError.Code e, message = clientError.Message e,
                                 data = clientError.Data e\<rparr>]\<rparr>"
    have len: "length (results ?br) = length reqs" using Cons.prems(1) by simp
    from Cons.IH [OF len known, of w] show ?thesis
      unfolding ExecuteWithContext_loop_error [where idx = idx and r = r, OF Some i(2) ib]
      by (auto split: outcome.splits)
  next
    case None
    let ?w = "run_client_after (Requester.After (reqs ! i)) rctx (clientResp.Result r)
                (run_client_after (clientOptions.after (Client.opts c)) rctx (clientResp.Result r) w)"
    show ?thesis
    proof (cases "MakeResult (reqs ! i) (clientResp.Result r)")
      case (Inl err)
      with None i show ?thesis
        unfolding ExecuteWithContext_loop_value [where idx = idx and r = r, OF None i(2) i(1) ib]
        by auto
    next
      case (Inr v)
      let ?br = "br\<lparr>results := (results br)[i := AnyValue v]\<rparr>"
      have len: "length (results ?br) = length reqs" using Cons.prems(1) by simp
      from Cons.IH [OF len known, of ?w] Inr show ?thesis
        unfolding ExecuteWithContext_loop_value [where idx = idx and r = r, OF None i(2) i(1) ib]
        by (auto split: outcome.splits)
    qed
  qed
qed

text \<open>
  Let the body a batch receives be the server's encoding of the response envelopes
  \<open>rs\<close>, each carrying an id of the batch, no id twice, and let the envelope with the
  id of request \<open>k\<close> carry an error with code \<open>c\<close>, message \<open>m\<close> and no data. Then
  a returned batch result holds at position \<open>k\<close> the error with that code and
  message. The call does not panic, and when it fails, the failure is the error that
  \<^verbatim>\<open>MakeResult\<close> returned on the result of an envelope without an error.
\<close>

lemma error_envelope_reaches_slot:
  assumes "length reqs < 2 ^ 64"
    and "doRequests nr jm c0 ctx reqs w =
           (c1, Returns (Inr (encode_jsonRPCResponses rs), idsIndex, resp, rctx), w1)"
    and "\<forall>r \<in> set rs. \<exists>i < length reqs. jsonRPCResponse.ID r = JNumber (int (Suc i))"
    and "distinct (map jsonRPCResponse.ID rs)"
    and "r \<in> set rs" and "k < length reqs" and "jsonRPCResponse.ID r = JNumber (int (Suc k))"
    and "Error r = Some \<lparr>Code = c, Message = m, Data = JNull\<rparr>"
    and "ExecuteWithContext nr jm c0 ctx reqs w = (c2, out, w2)"
  shows "(\<forall>br. out = Returns br \<longrightarrow> results br ! k = AnyError \<lparr>code = c, message = m, data = JNull\<rparr>)
    \<and> (\<forall>p. out \<noteq> Panics p)
    \<and> (\<forall>err. out = Fails err \<longrightarrow>
          (\<exists>r' \<in> set rs. \<exists>i < length reqs.
              Error r' = None \<and> jsonRPCResponse.ID r' = JNumber (int (Suc i))
              \<and> MakeResult (reqs ! i) (Result r') = Inl err))"
proof -
  from doRequests_Returns [OF assms(2)] obtain rpc w0
    where build: "doRequests_build c0 ctx reqs w = (c1, rctx, idsIndex, rpc, w0)" by blast
  note t = doRequests_build_table [OF assms(1) build]
  have view: "clientResp.ID (client_view x) = of_nat (Suc i)"
    if "jsonRPCResponse.ID x = JNumber (int (Suc i))" for x i
    using that by (simp add: client_view_def)
  have index: "idsIndex (clientResp.ID (client_view x)) = Some i"
    if "jsonRPCResponse.ID x = JNumber (int (Suc i))" "i < length reqs" for x i
    using view [OF that(1)] t(3) [OF that(2)] by simp
  have numeric: "\<forall>r \<in> set rs. \<exists>n. jsonRPCResponse.ID r = JNumber n \<and> 0 \<le> n \<and> n < 2 ^ 64"
  proof
    fix x assume "x \<in> set rs"
    with assms(3) obtain i where i: "i < length reqs" "jsonRPCResponse.ID x = JNumber (int (Suc i))"
      by auto
    from i(1) assms(1) have "Suc i < 2 ^ 64" by simp
    then have "int (Suc i) < 2 ^ 64" by (metis of_nat_less_iff of_nat_numeral of_nat_power)
    with i(2) show "\<exists>n. jsonRPCResponse.ID x = JNumber n \<and> 0 \<le> n \<and> n < 2 ^ 64"
      by (intro exI [of _ "int (Suc i)"]) simp
  qed
  have um: "unmarshal_clientResps (Inr (encode_jsonRPCResponses rs)) = Inr (map client_view rs)"
    by (rule unmarshal_encoded_responses [OF numeric])
  have known: "\<forall>x \<in> set (map client_view rs). \<exists>i < length reqs. idsIndex (clientResp.ID x) = Some i"
    using assms(3) index by auto
  have dist: "distinct (map (\<lambda>x. idsIndex (clientResp.ID x)) (map client_view rs))"
  proof -
    have "inj_on (\<lambda>x. idsIndex (clientResp.ID (client_view x))) (set rs)"
    proof (rule inj_onI)
      fix a b assume ab: "a \<in> set rs" "b \<in> set rs"
        and eq: "idsIndex (clientResp.ID (client_view a)) = idsIndex (clientResp.ID (client_view b))"
      from ab assms(3) obtain i j
        where i: "i < length reqs" "jsonRPCResponse.ID a = JNumber (int (Suc i))"
          and j: "j < length reqs" "jsonRPCResponse.ID b = JNumber (int (Suc j))" by blast
      from eq index [OF i(2) i(1)] index [OF j(2) j(1)] have "i = j" by simp
      with i j have "jsonRPCResponse.ID a = jsonRPCResponse.ID b" by simp
      with assms(4) ab show "a = b" by (auto simp: distinct_map dest: inj_onD)
    qed
    moreover from assms(4) have "distinct rs" by (auto simp: distinct_map)
    ultimately show ?thesis by (simp add: distinct_map comp_def)
  qed
  have run: "out = fst (ExecuteWithContext_loop c1 reqs idsIndex rctx (map client_view rs)
                          \<lparr>results = replicate (length reqs) AnyNil\<rparr> w1)"
    using assms(9) by (auto simp: ExecuteWithContext_Returns [OF assms(2) um])
  have len0: "length (results \<lparr>results = replicate (length reqs) (AnyNil :: 'e any)\<rparr>) = length reqs"
    by simp
  have returned: "results br ! k = AnyError \<lparr>code = c, message = m, data = JNull\<rparr>" if ret: "out = Returns br" for br
  proof -
    obtain w' where loop: "ExecuteWithContext_loop c1 reqs idsIndex rctx (map client_view rs)
                          \<lparr>results = replicate (length reqs) AnyNil\<rparr> w1 = (Returns br, w')"
      using run ret
      by (cases "ExecuteWithContext_loop c1 reqs idsIndex rctx (map client_view rs)
                          \<lparr>results = replicate (length reqs) AnyNil\<rparr> w1") simp
    note L = ExecuteWithContext_loop_returns [OF loop len0 known dist]
    have "client_view r \<in> set (map client_view rs)" using assms(5) by simp
    moreover have "idsIndex (clientResp.ID (client_view r)) = Some k"
      by (rule index [OF assms(7) assms(6)])
    moreover have "clientResp.Error (client_view r) =
        Some \<lparr>clientError.Code = c, Message = m, Data = JNull\<rparr>"
      using assms(8) by (simp add: client_view_def)
    ultimately have "results br ! k =
        AnyError \<lparr>code = clientError.Code \<lparr>clientError.Code = c, Message = m, Data = JNull\<rparr>,
                   message = clientError.Message \<lparr>clientError.Code = c, Message = m, Data = JNull\<rparr>,
                   data = clientError.Data \<lparr>clientError.Code = c, Message = m, Data = JNull\<rparr>\<rparr>"
      using L by blast
    then show ?thesis by simp
  qed
  note O = ExecuteWithContext_loop_outcome [OF len0 known, of c1 rctx w1]
  have no_panic: "out \<noteq> Panics p" for p
    using O run by (auto split: outcome.splits)
  have failed: "\<exists>r' \<in> set rs. \<exists>i < length reqs.
              Error r' = None \<and> jsonRPCResponse.ID r' = JNumber (int (Suc i))
              \<and> MakeResult (reqs ! i) (Result r') = Inl err" if fl: "out = Fails err" for err
  proof -
    from O run fl obtain x i where x: "x \<in> set (map client_view rs)" "i < length reqs"
      "clientResp.Error x = None" "idsIndex (clientResp.ID x) = Some i"
      "MakeResult (reqs ! i) (clientResp.Result x) = Inl err"
      by (auto split: outcome.splits)
    from x(1) obtain r' where r': "r' \<in> set rs" "x = client_view r'" by auto
    with assms(3) obtain j where j: "j < length reqs" "jsonRPCResponse.ID r' = JNumber (int (Suc j))"
      by blast
    from index [OF j(2) j(1)] x(4) r'(2) have "j = i" by simp
    moreover from x(3) r'(2) have "Error r' = None" by (simp add: client_view_def)
    moreover from x(5) r'(2) have "MakeResult (reqs ! i) (Result r') = Inl err"
      by (simp add: client_view_def)
    ultimately show ?thesis using r'(1) j by blast
  qed
  from returned no_panic failed show ?thesis by blast
qed

lemma loopback_doRequests:
  "doRequests (\<lambda>t. None) Inr (loopback_client add_server) () add_and_bogus [] =
     (loopback_client add_server\<lparr>incrementID := 2\<rparr>,
      Returns (Inr (encode_jsonRPCResponses add_and_bogus_responses), [1 \<mapsto> 0, 2 \<mapsto> 1],
               \<lparr>StatusCode = 200, Status = ''200 OK'',
                Body = Inr (100, Inr (encode_jsonRPCResponses add_and_bogus_responses))\<rparr>, ()),
      [Call ''add''])"
  by (simp add: doRequests_def doRequests_build_def loopback_client_def served_by_def add_and_bogus_def
      echo_request_def autoIncrementID_def encode_clientReqs_def encode_clientReq_def
      zero_clientReq_def Let_def ServeHTTP_def ServeHTTP_responses_def UnmarshalJSON_def
      zero_jsonRPCRequest_def names_field_simps add_server_eval handleMethod_def elems_nil
      middlewareChain_def params_decode_def add_endpoint_def ServeHTTP_data_def
      encode_jsonRPCResponses_def encode_jsonRPCResponse_def makeErrorResponse_def
      encode_jsonRPCError_def Version_const_def jsonRPCMethodNotFoundError_def
      add_and_bogus_responses_def)

lemma unmarshal_add_and_bogus_responses:
  "unmarshal_clientResps (Inr (encode_jsonRPCResponses add_and_bogus_responses)) =
     Inr [\<lparr>clientResp.ID = 1, Version = ''2.0'', Error = None, Result = Some (JNumber 5)\<rparr>,
          \<lparr>clientResp.ID = 2, Version = ''2.0'',
           Error = Some \<lparr>clientError.Code = - 32601, Message = ''method bogus not found'', Data = JNull\<rparr>,
           Result = None\<rparr>]"
  by (simp add: encode_jsonRPCResponses_def encode_jsonRPCResponse_def encode_jsonRPCError_def
      add_and_bogus_responses_def names_field_client zero_clientResp_def zero_clientError_def)

lemma loopback_Execute:
  "ExecuteWithContext (\<lambda>t. None) Inr (loopback_client add_server) () add_and_bogus [] =
     (loopback_client add_server\<lparr>incrementID := 2\<rparr>,
      Returns \<lparr>results = [AnyValue (JNumber 5),
                           AnyError \<lparr>code = - 32601, message = ''method bogus not found'',
                                      data = JNull\<rparr>]\<rparr>,
      [Call ''add''])"
  unfolding ExecuteWithContext_Returns [OF loopback_doRequests unmarshal_add_and_bogus_responses]
  by (simp add: add_and_bogus_def echo_request_def loopback_client_def)

text \<open>
  The client connected to the server that registers only \<^verbatim>\<open>add\<close>: the batch
  \<^verbatim>\<open>add(2, 3)\<close>, \<^verbatim>\<open>bogus()\<close> returns the result 5 at position 0 and the error
  -32601 at position 1.
\<close>

lemma add_and_bogus_end_to_end:
  "ExecuteWithContext (\<lambda>t. None) Inr (loopback_client add_server) () add_and_bogus [] =
     (loopback_client add_server\<lparr>incrementID := 2\<rparr>,
      Returns \<lparr>results = [AnyValue (JNumber 5),
                           AnyError \<lparr>code = - 32601, message = ''method bogus not found'',
                                      data = JNull\<rparr>]\<rparr>,
      [Call ''add''])
   \<and> fst (ServeHTTP_loop Inr (fst add_server) (snd add_server) ()
            [\<lparr>jsonRPCRequest.ID = JNumber 1, Version = ''2.0'', Method = ''add'',
              Params = Some (JArray [JNumber 2, JNumber 3])\<rparr>,
             \<lparr>jsonRPCRequest.ID = JNumber 2, Version = ''2.0'', Method = ''bogus'',
              Params = Some JNull\<rparr>] [] []) = add_and_bogus_responses
   \<and> [AnyValue (JNumber 5),
       AnyError \<lparr>code = - 32601, message = ''method bogus not found'', data = JNull\<rparr>] ! 1 =
      (AnyError \<lparr>code = - 32601, message = ''method bogus not found'', data = JNull\<rparr> :: json any)"
proof -
  have h1: "length add_and_bogus < 2 ^ 64" by (simp add: add_and_bogus_def)
  have h3: "\<forall>r \<in> set add_and_bogus_responses. \<exists>i < length add_and_bogus.
              jsonRPCResponse.ID r = JNumber (int (Suc i))"
    by (simp add: add_and_bogus_responses_def add_and_bogus_def)
  have h4: "distinct (map jsonRPCResponse.ID add_and_bogus_responses)"
    by (simp add: add_and_bogus_responses_def)
  have h5: "\<lparr>jsonRPCResponse.ID = JNumber 2, Version = ''2.0'',
       Error = Some \<lparr>Code = - 32601, Message = ''method bogus not found'', Data = JNull\<rparr>,
       Result = None\<rparr> \<in> set add_and_bogus_responses"
    by (simp add: add_and_bogus_responses_def)
  have h6: "1 < length add_and_bogus" by (simp add: add_and_bogus_def)
  have served: "fst (ServeHTTP_loop Inr (fst add_server) (snd add_server) ()
            [\<lparr>jsonRPCRequest.ID = JNumber 1, Version = ''2.0'', Method = ''add'',
              Params = Some (JArray [JNumber 2, JNumber 3])\<rparr>,
             \<lparr>jsonRPCRequest.ID = JNumber 2, Version = ''2.0'', Method = ''bogus'',
              Params = Some JNull\<rparr>] [] []) = add_and_bogus_responses"
    by (simp add: add_server_eval handleMethod_def elems_nil middlewareChain_def params_decode_def
        add_endpoint_def makeErrorResponse_def Version_const_def jsonRPCMethodNotFoundError_def
        add_and_bogus_responses_def)
  show ?thesis
    using error_envelope_reaches_slot [OF h1 loopback_doRequests h3 h4 h5 h6 _ _ loopback_Execute,
            of "- 32601" "''method bogus not found''"]
    by (simp add: loopback_Execute served del: ServeHTTP_loop.simps)
qed

section \<open>An error from the handler to the caller\<close>























end
